theory Spec2Isabelle
  imports Complex_Main
begin

section \<open>JavaScript strings\<close>

text \<open>
  A JavaScript string is a sequence of UTF-16 code units; a code unit is modelled by its
  numeric value. \<open>js\<close> turns an ASCII literal into such a sequence. The type
  \<open>number\<close> of the source (an IEEE double) is modelled by \<open>real\<close>: the sums, quotients and
  comparisons of scores and confidences are the exact ones. The two percentages of the
  result are rounded as doubles are (\<open>toDouble\<close> below).
\<close>

type_synonym jsstring = "nat list"

definition js :: "string \<Rightarrow> jsstring" where
  "js s = map of_char s"

text \<open>ECMAScript \<open>LineTerminator\<close>: LF, CR, LS, PS.\<close>

definition isLineTerminator :: "nat \<Rightarrow> bool" where
  "isLineTerminator c = (c = 10 \<or> c = 13 \<or> c = 8232 \<or> c = 8233)"

text \<open>ECMAScript \<open>WhiteSpace\<close> and \<open>LineTerminator\<close>: what \<open>trim()\<close> strips and \<open>\s\<close> matches.\<close>

definition isWhiteSpace :: "nat \<Rightarrow> bool" where
  "isWhiteSpace c = (c = 9 \<or> c = 11 \<or> c = 12 \<or> c = 32 \<or> c = 160 \<or> c = 5760
     \<or> (8192 \<le> c \<and> c \<le> 8202) \<or> c = 8239 \<or> c = 8287 \<or> c = 12288 \<or> c = 65279
     \<or> isLineTerminator c)"

text \<open>\<open>[A-Za-z0-9_]\<close>: what \<open>\w\<close> matches and \<open>\b\<close> tests (no \<open>u\<close> flag in the source).\<close>

definition isWordChar :: "nat \<Rightarrow> bool" where
  "isWordChar c = ((48 \<le> c \<and> c \<le> 57) \<or> (65 \<le> c \<and> c \<le> 90) \<or> c = 95 \<or> (97 \<le> c \<and> c \<le> 122))"

text \<open>\<open>String.prototype.trim\<close>.\<close>

definition trim :: "jsstring \<Rightarrow> jsstring" where
  "trim s = rev (dropWhile isWhiteSpace (rev (dropWhile isWhiteSpace s)))"

text \<open>\<open>code.split('\n')\<close>: the empty string gives one (empty) line.\<close>

fun split_newline :: "jsstring \<Rightarrow> jsstring list" where
  "split_newline [] = [[]]"
| "split_newline (c # cs) =
     (if c = 10 then [] # split_newline cs
      else (case split_newline cs of [] \<Rightarrow> [[c]] | l # ls \<Rightarrow> (c # l) # ls))"

text \<open>\<open>a.startsWith(b)\<close>.\<close>

fun startsWith :: "jsstring \<Rightarrow> jsstring \<Rightarrow> bool" where
  "startsWith s [] = True"
| "startsWith [] (b # bs) = False"
| "startsWith (a # as) (b # bs) = (a = b \<and> startsWith as bs)"

section \<open>Regular expressions\<close>

text \<open>
  The regular expressions of the source, as syntax trees, and a backtracking matcher in
  the order of ECMAScript's: \<open>ends f r p\<close> lists, in the order the engine tries them, the
  positions at which a match of \<open>r\<close> that starts at \<open>p\<close> can end. The head of the list is the
  match the engine reports. A position is the code unit before it (if any) and the rest
  of the input.
\<close>

datatype cset = Ch nat | Rg nat nat | WS | Dg | Wd

datatype rx = Eps | One "cset list" | Non "cset list" | Dot
  | Seq rx rx | Alt rx rx | Star rx | LazyStar rx | NegAhead rx | Bol | Eol | WordB

record rxflags =
  ignoreCase :: bool
  multiline :: bool
  dotAll :: bool
  global :: bool

type_synonym pos = "nat option \<times> nat list"

text \<open>
  \<open>Canonicalize\<close> under the \<open>i\<close> flag without \<open>u\<close>: upper case, and a code unit
  of 128 or more never becomes an ASCII one. Every literal the source writes under \<open>i\<close>
  is ASCII, so only the ASCII letters need their upper case here.
\<close>

definition canon :: "nat \<Rightarrow> nat" where
  "canon c = (if 97 \<le> c \<and> c \<le> 122 then c - 32 else c)"

fun inItem :: "bool \<Rightarrow> cset \<Rightarrow> nat \<Rightarrow> bool" where
  "inItem ic (Ch d) c = (if ic then canon c = canon d else c = d)"
| "inItem ic (Rg lo hi) c = ((lo \<le> c \<and> c \<le> hi) \<or>
     (ic \<and> c < 128 \<and> ((lo \<le> canon c \<and> canon c \<le> hi) \<or> (65 \<le> c \<and> c \<le> 90 \<and> lo \<le> c + 32 \<and> c + 32 \<le> hi))))"
| "inItem ic WS c = isWhiteSpace c"
| "inItem ic Dg c = (48 \<le> c \<and> c \<le> 57)"
| "inItem ic Wd c = isWordChar c"

definition inClass :: "rxflags \<Rightarrow> cset list \<Rightarrow> nat \<Rightarrow> bool" where
  "inClass f cs c = list_ex (\<lambda>i. inItem (ignoreCase f) i c) cs"

fun ends :: "rxflags \<Rightarrow> rx \<Rightarrow> pos \<Rightarrow> pos list" where
  "ends f Eps p = [p]"
| "ends f (One cs) (pr, []) = []"
| "ends f (One cs) (pr, c # r) = (if inClass f cs c then [(Some c, r)] else [])"
| "ends f (Non cs) (pr, []) = []"
| "ends f (Non cs) (pr, c # r) = (if inClass f cs c then [] else [(Some c, r)])"
| "ends f Dot (pr, []) = []"
| "ends f Dot (pr, c # r) = (if dotAll f \<or> \<not> isLineTerminator c then [(Some c, r)] else [])"
| "ends f (Seq a b) p = concat (map (ends f b) (ends f a p))"
| "ends f (Alt a b) p = ends f a p @ ends f b p"
| "ends f (Star a) p =
     concat (map (\<lambda>q. if length (snd q) < length (snd p) then ends f (Star a) q else [])
       (ends f a p)) @ [p]"
| "ends f (LazyStar a) p =
     p # concat (map (\<lambda>q. if length (snd q) < length (snd p) then ends f (LazyStar a) q else [])
       (ends f a p))"
| "ends f (NegAhead a) p = (if ends f a p = [] then [p] else [])"
| "ends f Bol (pr, r) =
     (case pr of None \<Rightarrow> [(pr, r)]
      | Some c \<Rightarrow> if multiline f \<and> isLineTerminator c then [(pr, r)] else [])"
| "ends f Eol (pr, r) =
     (case r of [] \<Rightarrow> [(pr, r)]
      | c # _ \<Rightarrow> if multiline f \<and> isLineTerminator c then [(pr, r)] else [])"
| "ends f WordB (pr, r) =
     (if (case pr of None \<Rightarrow> False | Some c \<Rightarrow> isWordChar c)
         \<noteq> (case r of [] \<Rightarrow> False | c # _ \<Rightarrow> isWordChar c)
      then [(pr, r)] else [])"

text \<open>The first match at or after a position: where it ends.\<close>

fun search :: "rxflags \<Rightarrow> rx \<Rightarrow> pos \<Rightarrow> pos option" where
  "search f r (pr, rest) =
     (case ends f r (pr, rest) of q # _ \<Rightarrow> Some q
      | [] \<Rightarrow> (case rest of [] \<Rightarrow> None | c # cs \<Rightarrow> search f r (Some c, cs)))"

text \<open>The position at index \<open>i\<close> of \<open>s\<close> (\<open>i \<le> length s\<close>).\<close>

definition posAt :: "jsstring \<Rightarrow> nat \<Rightarrow> pos" where
  "posAt s i = (if i = 0 then None else Some (s ! (i - 1)), drop i s)"

text \<open>
  \<open>RegExp.prototype.test\<close> on a regular expression whose \<open>lastIndex\<close> is \<open>li\<close>: the
  result and the new \<open>lastIndex\<close>. With the \<open>g\<close> flag the search starts at \<open>lastIndex\<close>,
  a match moves \<open>lastIndex\<close> to its end and a failure resets it to 0; without it the
  search starts at 0 and \<open>lastIndex\<close> is left alone.
\<close>

definition regexp_test :: "rxflags \<Rightarrow> rx \<Rightarrow> nat \<Rightarrow> jsstring \<Rightarrow> bool \<times> nat" where
  "regexp_test f r li s =
     (if global f then
        (if li > length s then (False, 0)
         else (case search f r (posAt s li) of
                 None \<Rightarrow> (False, 0)
               | Some q \<Rightarrow> (True, length s - length (snd q))))
      else (search f r (None, s) \<noteq> None, li))"

text \<open>\<open>s.match(r)\<close> for \<open>r\<close> without \<open>g\<close>, and \<open>r.test(s)\<close> on a fresh \<open>r\<close>, as a truth value.\<close>

definition matches :: "rxflags \<Rightarrow> rx \<Rightarrow> jsstring \<Rightarrow> bool" where
  "matches f r s = (search f r (None, s) \<noteq> None)"

text \<open>
  \<open>(s.match(r) || []).length\<close> for \<open>r\<close> with \<open>g\<close>: the number of matches found from left
  to right, each search starting where the last match ended (one further after an empty
  match).
\<close>

function countMatches :: "rxflags \<Rightarrow> rx \<Rightarrow> pos \<Rightarrow> nat" where
  "countMatches f r (pr, rest) =
     (case ends f r (pr, rest) of
        [] \<Rightarrow> (case rest of [] \<Rightarrow> 0 | c # cs \<Rightarrow> countMatches f r (Some c, cs))
      | q # _ \<Rightarrow>
          Suc (if length (snd q) < length rest then countMatches f r q
               else (case rest of [] \<Rightarrow> 0 | c # cs \<Rightarrow> countMatches f r (Some c, cs))))"
  by pat_completeness auto
termination
  by (relation "measure (\<lambda>(f, r, p). length (snd p))") auto

subsection \<open>Writing patterns\<close>

fun lit :: "string \<Rightarrow> rx" where
  "lit [] = Eps"
| "lit [c] = One [Ch (of_char c)]"
| "lit (c # cs) = Seq (One [Ch (of_char c)]) (lit cs)"

fun alts :: "rx list \<Rightarrow> rx" where
  "alts [] = One []"
| "alts [r] = r"
| "alts (r # rs) = Alt r (alts rs)"

fun cat :: "rx list \<Rightarrow> rx" where
  "cat [] = Eps"
| "cat [r] = r"
| "cat (r # rs) = Seq r (cat rs)"

text \<open>\<open>r+\<close> and \<open>r{n,}\<close>.\<close>

definition plus :: "rx \<Rightarrow> rx" where
  "plus r = Seq r (Star r)"

fun atLeast_rx :: "nat \<Rightarrow> rx \<Rightarrow> rx" where
  "atLeast_rx 0 r = Star r"
| "atLeast_rx (Suc n) r = Seq r (atLeast_rx n r)"

definition ws :: rx where "ws = One [WS]"
definition dg :: rx where "dg = One [Dg]"
definition wd :: rx where "wd = One [Wd]"

text \<open>\<open>["']\<close>\<close>

definition quote :: rx where "quote = One [Ch 34, Ch 39]"

text \<open>The flag sets the source uses.\<close>

definition fl_none :: rxflags where
  "fl_none = \<lparr>ignoreCase = False, multiline = False, dotAll = False, global = False\<rparr>"
definition fl_i :: rxflags where
  "fl_i = \<lparr>ignoreCase = True, multiline = False, dotAll = False, global = False\<rparr>"
definition fl_s :: rxflags where
  "fl_s = \<lparr>ignoreCase = False, multiline = False, dotAll = True, global = False\<rparr>"
definition fl_g :: rxflags where
  "fl_g = \<lparr>ignoreCase = False, multiline = False, dotAll = False, global = True\<rparr>"
definition fl_gi :: rxflags where
  "fl_gi = \<lparr>ignoreCase = True, multiline = False, dotAll = False, global = True\<rparr>"
definition fl_gm :: rxflags where
  "fl_gm = \<lparr>ignoreCase = False, multiline = True, dotAll = False, global = True\<rparr>"
definition fl_gs :: rxflags where
  "fl_gs = \<lparr>ignoreCase = False, multiline = False, dotAll = True, global = True\<rparr>"

section \<open>The pattern registry\<close>

record DetectionPattern =
  pattern :: rx
  pflags :: rxflags
  weight :: real
  reason :: string
  aiIndicator :: bool

definition alpha :: rx where "alpha = One [Rg 97 122, Rg 65 90]"

text \<open>\<^verbatim>\<open>/\/\/\s*Step\s*\d+:|\/\/\s*\d+\.|#\s*Step\s*\d+:|#\s*\d+\./gi\<close>\<close>

definition rx_step :: rx where
  "rx_step = alts
     [cat [lit ''//'', Star ws, lit ''Step'', Star ws, plus dg, lit '':''],
      cat [lit ''//'', Star ws, plus dg, lit ''.''],
      cat [lit ''#'', Star ws, lit ''Step'', Star ws, plus dg, lit '':''],
      cat [lit ''#'', Star ws, plus dg, lit ''.'']]"

text \<open>\<^verbatim>\<open>/#\s*(Loop through|Track if|Last.*elements|Swap if|If no|Example usage|Original|Sorted)/gi\<close>\<close>

definition rx_verbose :: rx where
  "rx_verbose = cat [lit ''#'', Star ws, alts
     [lit ''Loop through'', lit ''Track if'', cat [lit ''Last'', Star Dot, lit ''elements''],
      lit ''Swap if'', lit ''If no'', lit ''Example usage'', lit ''Original'', lit ''Sorted'']]"

text \<open>\<^verbatim>\<open>/(Example usage|if __name__ == "__main__":|# Example|\/\/ Example)/gi\<close>\<close>

definition rx_example :: rx where
  \<open>rx_example = alts
     [lit ''Example usage'', lit ''if __name__ == "__main__":'', lit ''# Example'',
      lit ''// Example'']\<close>

text \<open>\<^verbatim>\<open>/#.*already (in place|sorted)|#.*optimization|#.*efficient/gi\<close>\<close>

definition rx_optimization :: rx where
  "rx_optimization = alts
     [cat [lit ''#'', Star Dot, lit ''already '', alts [lit ''in place'', lit ''sorted'']],
      cat [lit ''#'', Star Dot, lit ''optimization''],
      cat [lit ''#'', Star Dot, lit ''efficient'']]"

text \<open>\<^verbatim>\<open>/\b(nums|arr|swapped|sorted_nums)\b/gi\<close>\<close>

definition rx_educational :: rx where
  "rx_educational = cat [WordB,
     alts [lit ''nums'', lit ''arr'', lit ''swapped'', lit ''sorted_nums''], WordB]"

text \<open>\<^verbatim>\<open>/print\s*\(\s*["']Original:|print\s*\(\s*["']Sorted:/gi\<close>\<close>

definition rx_labeled :: rx where
  "rx_labeled = alts
     [cat [lit ''print'', Star ws, lit ''('', Star ws, quote, lit ''Original:''],
      cat [lit ''print'', Star ws, lit ''('', Star ws, quote, lit ''Sorted:'']]"

text \<open>\<^verbatim>\<open>/def\s+\w+\s*\([^)]*\):\s*\n.*return/s\<close>\<close>

definition rx_function :: rx where
  "rx_function = cat [lit ''def'', plus ws, plus wd, Star ws, lit ''('', Star (Non [Ch 41]),
     lit ''):'', Star ws, One [Ch 10], Star Dot, lit ''return'']"

text \<open>\<^verbatim>\<open>/if.*:\s*\n.*else:\s*\n.*break/gs\<close>\<close>

definition rx_conditional :: rx where
  "rx_conditional = cat [lit ''if'', Star Dot, lit '':'', Star ws, One [Ch 10], Star Dot,
     lit ''else:'', Star ws, One [Ch 10], Star Dot, lit ''break'']"

text \<open>\<^verbatim>\<open>/^    [a-zA-Z]/gm\<close>\<close>

definition rx_indent :: rx where
  "rx_indent = cat [Bol, lit ''    '', alpha]"

text \<open>\<^verbatim>\<open>/print\s*\(\s*(?!["']Original:|["']Sorted:)/gi\<close>\<close>

definition rx_debug_print :: rx where
  "rx_debug_print = cat [lit ''print'', Star ws, lit ''('', Star ws,
     NegAhead (alts [cat [quote, lit ''Original:''], cat [quote, lit ''Sorted:'']])]"

text \<open>\<^verbatim>\<open>/(TODO|FIXME|HACK|XXX|BUG):/gi\<close>\<close>

definition rx_todo :: rx where
  "rx_todo = cat [alts [lit ''TODO'', lit ''FIXME'', lit ''HACK'', lit ''XXX'', lit ''BUG''],
     lit '':'']"

text \<open>\<^verbatim>\<open>/#\s*[a-z][^.A-Z]*$/gm\<close>\<close>

definition rx_casual :: rx where
  "rx_casual = cat [lit ''#'', Star ws, One [Rg 97 122], Star (Non [Ch 46, Rg 65 90]), Eol]"

text \<open>\<^verbatim>\<open>/\b(i|j|k|n|x|y|z|tmp|temp|val|res|data|item)\b/g\<close>\<close>

definition rx_short_names :: rx where
  "rx_short_names = cat [WordB,
     alts [lit ''i'', lit ''j'', lit ''k'', lit ''n'', lit ''x'', lit ''y'', lit ''z'', lit ''tmp'',
       lit ''temp'', lit ''val'', lit ''res'', lit ''data'', lit ''item''], WordB]"

text \<open>\<^verbatim>\<open>/\s{5,}|[a-zA-Z]\s{2,}[a-zA-Z]|\t\s|\s\t/g\<close>\<close>

definition rx_spacing :: rx where
  "rx_spacing = alts
     [atLeast_rx 5 ws, cat [alpha, atLeast_rx 2 ws, alpha], cat [One [Ch 9], ws],
      cat [ws, One [Ch 9]]]"

text \<open>\<^verbatim>\<open>/\w+\[\w+\]\s*=\s*\w+\[\w+\]/g\<close>\<close>

definition rx_assign :: rx where
  "rx_assign = cat [plus wd, lit ''['', plus wd, lit '']'', Star ws, lit ''='', Star ws,
     plus wd, lit ''['', plus wd, lit '']'']"

text \<open>\<^verbatim>\<open>/\[.*64.*25.*12.*22.*11.*\]/g\<close>\<close>

definition rx_hardcoded :: rx where
  "rx_hardcoded = cat [lit ''['', Star Dot, lit ''64'', Star Dot, lit ''25'', Star Dot,
     lit ''12'', Star Dot, lit ''22'', Star Dot, lit ''11'', Star Dot, lit '']'']"

definition AI_PATTERNS :: "DetectionPattern list" where
  "AI_PATTERNS =
    [\<lparr>pattern = rx_step, pflags = fl_gi, weight = 0.9,
      reason = ''Contains step-by-step comments typical of AI explanations'',
      aiIndicator = True\<rparr>,
     \<lparr>pattern = rx_verbose, pflags = fl_gi, weight = 0.8,
      reason = ''Contains verbose explanatory comments typical of AI generation'',
      aiIndicator = True\<rparr>,
     \<lparr>pattern = rx_example, pflags = fl_gi, weight = 0.9,
      reason = ''Contains structured example usage typical of AI tutorials'',
      aiIndicator = True\<rparr>,
     \<lparr>pattern = rx_optimization, pflags = fl_gi, weight = 0.8,
      reason = ''Contains optimization comments typical of AI explanations'',
      aiIndicator = True\<rparr>,
     \<lparr>pattern = rx_educational, pflags = fl_gi, weight = 0.7,
      reason = ''Uses educational variable names typical of AI tutorials'',
      aiIndicator = True\<rparr>,
     \<lparr>pattern = rx_labeled, pflags = fl_gi, weight = 0.9,
      reason = ''Contains labeled output statements typical of AI examples'',
      aiIndicator = True\<rparr>,
     \<lparr>pattern = rx_function, pflags = fl_s, weight = 0.6,
      reason = ''Contains complete function with proper return statement'',
      aiIndicator = True\<rparr>,
     \<lparr>pattern = rx_conditional, pflags = fl_gs, weight = 0.7,
      reason = ''Contains comprehensive conditional logic typical of AI'',
      aiIndicator = True\<rparr>,
     \<lparr>pattern = rx_indent, pflags = fl_gm, weight = 0.3,
      reason = ''Perfect 4-space indentation consistency'',
      aiIndicator = True\<rparr>,
     \<lparr>pattern = rx_debug_print, pflags = fl_gi, weight = 0.6,
      reason = ''Contains debug print statements'',
      aiIndicator = False\<rparr>,
     \<lparr>pattern = rx_todo, pflags = fl_gi, weight = 0.8,
      reason = ''Contains TODO/FIXME comments indicating human planning'',
      aiIndicator = False\<rparr>,
     \<lparr>pattern = rx_casual, pflags = fl_gm, weight = 0.4,
      reason = ''Contains casual comments typical of human code'',
      aiIndicator = False\<rparr>,
     \<lparr>pattern = rx_short_names, pflags = fl_g, weight = 0.3,
      reason = ''Uses short variable names common in human code'',
      aiIndicator = False\<rparr>,
     \<lparr>pattern = rx_spacing, pflags = fl_g, weight = 0.6,
      reason = ''Has inconsistent spacing typical of human editing'',
      aiIndicator = False\<rparr>,
     \<lparr>pattern = rx_assign, pflags = fl_g, weight = 0.2,
      reason = ''Direct assignments without explanatory comments'',
      aiIndicator = False\<rparr>,
     \<lparr>pattern = rx_hardcoded, pflags = fl_g, weight = 0.4,
      reason = ''Contains hardcoded test values'',
      aiIndicator = True\<rparr>]"

subsection \<open>Language-specific patterns\<close>

text \<open>\<^verbatim>\<open>/console\.log\([^)]*\)/g\<close>\<close>

definition rx_console_log :: rx where
  "rx_console_log = cat [lit ''console.log('', Star (Non [Ch 41]), lit '')'']"

text \<open>\<^verbatim>\<open>/function\s+\w+\s*\([^)]*\)\s*{/g\<close>\<close>

definition rx_js_function :: rx where
  "rx_js_function = cat [lit ''function'', plus ws, plus wd, Star ws, lit ''('',
     Star (Non [Ch 41]), lit '')'', Star ws, lit ''{'']"

text \<open>\<^verbatim>\<open>/print\([^)]*\)/g\<close>\<close>

definition rx_py_print :: rx where
  "rx_py_print = cat [lit ''print('', Star (Non [Ch 41]), lit '')'']"

text \<open>\<^verbatim>\<open>/def\s+\w+\s*\([^)]*\):/g\<close>\<close>

definition rx_py_def :: rx where
  "rx_py_def = cat [lit ''def'', plus ws, plus wd, Star ws, lit ''('', Star (Non [Ch 41]),
     lit ''):'']"

text \<open>\<^verbatim>\<open>/:\s*(string|number|boolean|any|unknown|void|never)\b/g\<close>\<close>

definition rx_ts_annotation :: rx where
  "rx_ts_annotation = cat [lit '':'', Star ws,
     alts [lit ''string'', lit ''number'', lit ''boolean'', lit ''any'', lit ''unknown'',
       lit ''void'', lit ''never''], WordB]"

definition javascript_patterns :: "DetectionPattern list" where
  "javascript_patterns =
    [\<lparr>pattern = rx_console_log, pflags = fl_g, weight = 0.2,
      reason = ''Contains debug console.log statements'', aiIndicator = False\<rparr>,
     \<lparr>pattern = rx_js_function, pflags = fl_g, weight = 0.1,
      reason = ''Uses function declarations'', aiIndicator = True\<rparr>]"

definition python_patterns :: "DetectionPattern list" where
  "python_patterns =
    [\<lparr>pattern = rx_py_print, pflags = fl_g, weight = 0.2,
      reason = ''Contains debug print statements'', aiIndicator = False\<rparr>,
     \<lparr>pattern = rx_py_def, pflags = fl_g, weight = 0.1,
      reason = ''Uses function definitions'', aiIndicator = True\<rparr>]"

definition typescript_patterns :: "DetectionPattern list" where
  "typescript_patterns =
    [\<lparr>pattern = rx_ts_annotation, pflags = fl_g, weight = 0.2,
      reason = ''Contains explicit type annotations'', aiIndicator = True\<rparr>]"

text \<open>
  The arrays that hold the \<open>RegExp\<close> objects of the module. The objects are created once,
  when the module is loaded, and each carries a mutable \<open>lastIndex\<close>: the store gives the
  \<open>lastIndex\<close> of the object at a place of an array.
\<close>

datatype table = General | Javascript | Python | Typescript

type_synonym store = "table \<times> nat \<Rightarrow> nat"

text \<open>The store of a freshly loaded module.\<close>

definition fresh :: store where
  "fresh = (\<lambda>_. 0)"

text \<open>
  \<open>LANGUAGE_PATTERNS[language]\<close>. \<open>LANGUAGE_PATTERNS\<close> is an object literal, so a
  label that is not one of its own keys is looked up in \<open>Object.prototype\<close>: the names
  that object has (ECMAScript, with Annex B) give a function or an object, every other
  label gives \<open>undefined\<close>.
\<close>

datatype lookup = Own table "DetectionPattern list" | Inherited | Undefined

definition objectPrototypeKeys :: "string list" where
  "objectPrototypeKeys =
    [''constructor'', ''hasOwnProperty'', ''isPrototypeOf'', ''propertyIsEnumerable'',
     ''toLocaleString'', ''toString'', ''valueOf'', ''__proto__'', ''__defineGetter__'',
     ''__defineSetter__'', ''__lookupGetter__'', ''__lookupSetter__'']"

definition LANGUAGE_PATTERNS :: "jsstring \<Rightarrow> lookup" where
  "LANGUAGE_PATTERNS language =
     (if language = js ''javascript'' then Own Javascript javascript_patterns
      else if language = js ''python'' then Own Python python_patterns
      else if language = js ''typescript'' then Own Typescript typescript_patterns
      else if language \<in> set (map js objectPrototypeKeys) then Inherited
      else Undefined)"

section \<open>The structure analyzer\<close>

text \<open>\<open>line.match(/^\s*/)?.[0] || ''\<close>: the leading white space of a line.\<close>

definition leadingWhitespace :: "jsstring \<Rightarrow> jsstring" where
  "leadingWhitespace l = takeWhile isWhiteSpace l"

text \<open>The loop over the non-blank lines: the reference indent and the count of conforming lines.\<close>

fun indentLoop :: "jsstring list \<Rightarrow> jsstring \<Rightarrow> nat \<Rightarrow> nat" where
  "indentLoop [] indentPattern consistentIndentation = consistentIndentation"
| "indentLoop (l # ls) indentPattern consistentIndentation =
     (let indent = leadingWhitespace l;
          indentPattern' = (if indentPattern = [] \<and> indent \<noteq> [] then indent else indentPattern)
      in indentLoop ls indentPattern'
           (if indent = indentPattern' \<or> indent = [] \<or> startsWith indent indentPattern'
            then Suc consistentIndentation else consistentIndentation))"

text \<open>
  \<open>a / b > t\<close> for counts \<open>a\<close>, \<open>b\<close> and \<open>t > 0\<close>, as JavaScript evaluates it: \<open>0 / 0\<close> is
  \<open>NaN\<close>, which compares false, and \<open>a / 0\<close> is \<open>Infinity\<close> for \<open>a > 0\<close>.
\<close>

definition ratio_gt :: "nat \<Rightarrow> nat \<Rightarrow> real \<Rightarrow> bool" where
  "ratio_gt a b t = (if b = 0 then a > 0 else real a / real b > t)"

text \<open>\<^verbatim>\<open>/\/\*[\s\S]*?\*\/|\/\/.*$/gm\<close>; \<open>[\s\S]\<close> is any code unit.\<close>

definition rx_comment :: rx where
  "rx_comment = alts [cat [lit ''/*'', LazyStar (Non []), lit ''*/''],
     cat [lit ''//'', Star Dot, Eol]]"

text \<open>\<^verbatim>\<open>/(try|catch|throw|Error|Exception)/g\<close>\<close>

definition rx_error_handling :: rx where
  "rx_error_handling = alts [lit ''try'', lit ''catch'', lit ''throw'', lit ''Error'',
     lit ''Exception'']"

definition analyzeCodeStructure :: "jsstring \<Rightarrow> real" where
  "analyzeCodeStructure code =
     (let lines = filter (\<lambda>line. trim line \<noteq> []) (split_newline code);
          consistentIndentation = indentLoop lines [] 0;
          aiScore = (if ratio_gt consistentIndentation (length lines) 0.9 then 0.3 else 0);
          commentLines = countMatches fl_gm rx_comment (None, code);
          aiScore = (if ratio_gt commentLines (length lines) 0.3 then aiScore + 0.2 else aiScore);
          errorHandlingCount = countMatches fl_g rx_error_handling (None, code);
          aiScore = (if real errorHandlingCount > real (length lines) * 0.1
                     then aiScore + 0.2 else aiScore)
      in min aiScore 1)"

section \<open>The line classifier\<close>

record LineAnalysis =
  content :: jsstring
  isAI :: bool
  confidence :: real
  reasons :: "string list"

datatype error = TypeError

text \<open>
  One \<open>for (const pattern of ...)\<close> loop of \<open>analyzeLine\<close> over the array \<open>t\<close>, from its
  place \<open>k\<close> on: each \<open>test\<close> reads and writes the \<open>lastIndex\<close> of its \<open>RegExp\<close>.
\<close>

fun applyPatterns :: "table \<Rightarrow> nat \<Rightarrow> DetectionPattern list \<Rightarrow> jsstring \<Rightarrow>
    store \<times> real \<times> real \<times> string list \<Rightarrow> store \<times> real \<times> real \<times> string list" where
  "applyPatterns t k [] cont acc = acc"
| "applyPatterns t k (p # ps) cont (\<sigma>, aiScore, humanScore, rs) =
     (case regexp_test (pflags p) (pattern p) (\<sigma> (t, k)) cont of
        (hit, li) \<Rightarrow>
          applyPatterns t (Suc k) ps cont
            (if hit then
               (if aiIndicator p then (\<sigma>((t, k) := li), aiScore + weight p, humanScore, rs @ [reason p])
                else (\<sigma>((t, k) := li), aiScore, humanScore + weight p, rs @ [reason p]))
             else (\<sigma>((t, k) := li), aiScore, humanScore, rs)))"

text \<open>\<^verbatim>\<open>/[{}();,]/\<close>\<close>

definition rx_punctuation :: rx where
  "rx_punctuation = One [Ch 123, Ch 125, Ch 40, Ch 41, Ch 59, Ch 44]"

text \<open>\<^verbatim>\<open>/[^\w\s\(\)\[\]{};:,.<>!@#$%^&*+=|\\?/-]/\<close>\<close>

definition rx_imperfect :: rx where
  "rx_imperfect = Non [Wd, WS, Ch 40, Ch 41, Ch 91, Ch 93, Ch 123, Ch 125, Ch 59, Ch 58, Ch 44,
     Ch 46, Ch 60, Ch 62, Ch 33, Ch 64, Ch 35, Ch 36, Ch 37, Ch 94, Ch 38, Ch 42, Ch 43, Ch 61,
     Ch 124, Ch 92, Ch 63, Ch 47, Ch 45]"

text \<open>\<^verbatim>\<open>/\b(foo|bar|baz|qux|quirky|magic|hack|wtf)\b/i\<close>\<close>

definition rx_quirky :: rx where
  "rx_quirky = cat [WordB, alts [lit ''foo'', lit ''bar'', lit ''baz'', lit ''qux'',
     lit ''quirky'', lit ''magic'', lit ''hack'', lit ''wtf''], WordB]"

text \<open>The additional heuristics of \<open>analyzeLine\<close>, on the trimmed line.\<close>

definition heuristics :: "jsstring \<Rightarrow> real \<times> real \<times> string list \<Rightarrow> real \<times> real \<times> string list" where
  "heuristics cont acc =
     (case (case acc of (aiScore, humanScore, rs) \<Rightarrow>
              if length cont > 120 then
                (aiScore + 0.2, humanScore, rs @ [''Very long line length typical of AI generation''])
              else if length cont < 20 \<and> \<not> matches fl_none rx_punctuation cont then
                (aiScore, humanScore + 0.1, rs @ [''Short, concise line suggests human writing''])
              else (aiScore, humanScore, rs)) of
        (aiScore, humanScore, rs) \<Rightarrow>
     (case (if \<not> matches fl_none rx_imperfect cont \<and> length cont > 30
            then (aiScore + 0.1, humanScore, rs @ [''Perfect syntax and structure''])
            else (aiScore, humanScore, rs)) of
        (aiScore, humanScore, rs) \<Rightarrow>
          if matches fl_i rx_quirky cont
          then (aiScore, humanScore + 0.3,
                rs @ [''Uses creative or placeholder naming typical of humans''])
          else (aiScore, humanScore, rs)))"

text \<open>
  The scores of a non-blank line: the general patterns, the patterns of the language and
  the heuristics. Iterating \<open>LANGUAGE_PATTERNS[language] || []\<close> raises a
  \<open>TypeError\<close> when the lookup gives a value that is not \<open>undefined\<close> and not an array.
\<close>

definition lineScores :: "store \<Rightarrow> jsstring \<Rightarrow> jsstring \<Rightarrow>
    (error + real \<times> real \<times> string list) \<times> store" where
  "lineScores \<sigma> cont language =
     (case applyPatterns General 0 AI_PATTERNS cont (\<sigma>, 0, 0, []) of
        (\<sigma>1, aiScore, humanScore, rs) \<Rightarrow>
          (case LANGUAGE_PATTERNS language of
             Inherited \<Rightarrow> (Inl TypeError, \<sigma>1)
           | Undefined \<Rightarrow> (Inr (heuristics cont (aiScore, humanScore, rs)), \<sigma>1)
           | Own t langPatterns \<Rightarrow>
               (case applyPatterns t 0 langPatterns cont (\<sigma>1, aiScore, humanScore, rs) of
                  (\<sigma>2, acc) \<Rightarrow> (Inr (heuristics cont acc), \<sigma>2))))"

text \<open>\<open>analyzeLine\<close>; the line number is not used.\<close>

definition analyzeLine :: "store \<Rightarrow> jsstring \<Rightarrow> nat \<Rightarrow> jsstring \<Rightarrow> (error + LineAnalysis) \<times> store" where
  "analyzeLine \<sigma> line lineNumber language =
     (if trim line = [] then
        (Inr \<lparr>content = line, isAI = False, confidence = 0.5,
              reasons = [''Empty line - neutral'']\<rparr>, \<sigma>)
      else
        (case lineScores \<sigma> (trim line) language of
           (Inl e, \<sigma>') \<Rightarrow> (Inl e, \<sigma>')
         | (Inr (aiScore, humanScore, rs), \<sigma>') \<Rightarrow>
             (let totalScore = aiScore + humanScore;
                  conf = (if totalScore > 0 then max aiScore humanScore / totalScore else 0.5);
                  conf = min (max conf 0.1) 0.95
              in (Inr \<lparr>content = line, isAI = (aiScore > humanScore), confidence = conf,
                        reasons = (if rs = []
                          then [''No significant patterns detected - neutral classification'']
                          else rs)\<rparr>, \<sigma>'))))"

section \<open>Creative human code\<close>

text \<open>\<^verbatim>\<open>/(TODO|FIXME|HACK|XXX|NOTE):/gi\<close>\<close>

definition rx_creative_tag :: rx where
  "rx_creative_tag = cat [alts [lit ''TODO'', lit ''FIXME'', lit ''HACK'', lit ''XXX'',
     lit ''NOTE''], lit '':'']"

text \<open>\<^verbatim>\<open>/\b(foo|bar|baz|qux|quirky|magic|hack|wtf|temp|tmp)\b/i\<close>\<close>

definition rx_creative_names :: rx where
  "rx_creative_names = cat [WordB, alts [lit ''foo'', lit ''bar'', lit ''baz'', lit ''qux'',
     lit ''quirky'', lit ''magic'', lit ''hack'', lit ''wtf'', lit ''temp'', lit ''tmp''], WordB]"

text \<open>\<^verbatim>\<open>/console\.log\((?!.*Result:|.*Error:|.*Usage:)/\<close>\<close>

definition rx_creative_log :: rx where
  "rx_creative_log = cat [lit ''console.log('',
     NegAhead (alts [cat [Star Dot, lit ''Result:''], cat [Star Dot, lit ''Error:''],
       cat [Star Dot, lit ''Usage:'']])]"

text \<open>\<^verbatim>\<open>/\/\/\s*(FIXME|TODO|HACK|NOTE)/i\<close>\<close>

definition rx_creative_slash_tag :: rx where
  "rx_creative_slash_tag = cat [lit ''//'', Star ws,
     alts [lit ''FIXME'', lit ''TODO'', lit ''HACK'', lit ''NOTE'']]"

text \<open>\<^verbatim>\<open>/\/\/\s*[a-z][^.A-Z]*$/\<close>\<close>

definition rx_creative_casual :: rx where
  "rx_creative_casual = cat [lit ''//'', Star ws, One [Rg 97 122], Star (Non [Ch 46, Rg 65 90]),
     Eol]"

text \<open>\<^verbatim>\<open>/\?\?\?|\!\!\!|\.\.\.$/\<close>\<close>

definition rx_creative_punct :: rx where
  "rx_creative_punct = alts [lit ''???'', lit ''!!!'', cat [lit ''...'', Eol]]"

text \<open>\<^verbatim>\<open>/\/\/\s*(lol|wtf|omg|meh|ugh)/i\<close>\<close>

definition rx_creative_expr :: rx where
  "rx_creative_expr = cat [lit ''//'', Star ws,
     alts [lit ''lol'', lit ''wtf'', lit ''omg'', lit ''meh'', lit ''ugh'']]"

text \<open>
  The patterns are created anew by every call, so every \<open>test\<close> starts at \<open>lastIndex\<close> 0
  and the only global one is tested once.
\<close>

definition creativePatterns :: "(rxflags \<times> rx) list" where
  "creativePatterns =
     [(fl_gi, rx_creative_tag), (fl_i, rx_creative_names), (fl_none, rx_creative_log),
      (fl_i, rx_creative_slash_tag), (fl_none, rx_creative_casual), (fl_none, rx_creative_punct),
      (fl_i, rx_creative_expr)]"

definition isCreativeHumanCode :: "jsstring \<Rightarrow> bool" where
  "isCreativeHumanCode line =
     list_ex (\<lambda>p. fst (regexp_test (fst p) (snd p) 0 (trim line))) creativePatterns"

section \<open>Blocks\<close>

datatype level = StronglyAI | ModerateAI | LikelyAI | Uncertain | LikelyHuman | StronglyHuman

text \<open>
  An \<open>AIBlock\<close>; its fields \<open>confidence\<close> and \<open>reasons\<close> are \<open>blockConfidence\<close> and
  \<open>blockReasons\<close> here, the names being those of \<open>LineAnalysis\<close> already.
\<close>

record AIBlock =
  startLine :: nat
  endLine :: nat
  confidenceLevel :: level
  blockConfidence :: real
  blockReasons :: "string list"

definition getConfidenceLevel :: "real \<Rightarrow> bool \<Rightarrow> level" where
  "getConfidenceLevel c ai =
     (if ai then
        (if c \<ge> 0.85 then StronglyAI
         else if c \<ge> 0.7 then ModerateAI
         else if c \<ge> 0.6 then LikelyAI
         else Uncertain)
      else
        (if c \<ge> 0.85 then StronglyHuman
         else if c \<ge> 0.7 then LikelyHuman
         else Uncertain))"

text \<open>The accumulator \<open>currentBlock\<close>; its \<open>Set\<close> of reasons keeps the order of insertion.\<close>

record currentBlock =
  cstart :: nat
  cend :: nat
  cisAI :: bool
  confidences :: "real list"
  creasons :: "string list"

definition setAdd :: "string \<Rightarrow> string list \<Rightarrow> string list" where
  "setAdd r rs = (if r \<in> set rs then rs else rs @ [r])"

text \<open>A line with nothing but white space: \<open>!line.content.trim()\<close>.\<close>

definition blank :: "LineAnalysis \<Rightarrow> bool" where
  "blank l = (trim (content l) = [])"

text \<open>The block that is pushed for an accumulator, when it has two lines or more.\<close>

definition pushBlock :: "currentBlock option \<Rightarrow> AIBlock list \<Rightarrow> AIBlock list" where
  "pushBlock cb blocks =
     (case cb of
        None \<Rightarrow> blocks
      | Some c \<Rightarrow>
          if length (confidences c) \<ge> 2 then
            (let avgConfidence = foldl (+) 0 (confidences c) / real (length (confidences c))
             in blocks @ [\<lparr>startLine = cstart c, endLine = cend c,
                  confidenceLevel = getConfidenceLevel avgConfidence (cisAI c),
                  blockConfidence = avgConfidence, blockReasons = creasons c\<rparr>])
          else blocks)"

text \<open>The body of the loop of \<open>detectAIBlocks\<close>, at index \<open>i\<close>.\<close>

definition blockStep :: "LineAnalysis list \<Rightarrow> AIBlock list \<times> currentBlock option \<Rightarrow> nat \<Rightarrow>
    AIBlock list \<times> currentBlock option" where
  "blockStep la st i =
     (case st of (blocks, cb) \<Rightarrow>
        (let line = la ! i in
         if blank line then (blocks, cb)
         else if (case cb of None \<Rightarrow> False | Some c \<Rightarrow> cisAI c = isAI line) then
           (blocks, map_option (\<lambda>c. c\<lparr>cend := i + 1,
               confidences := confidences c @ [confidence line],
               creasons := fold setAdd (reasons line) (creasons c)\<rparr>) cb)
         else
           (pushBlock cb blocks,
            Some \<lparr>cstart = i + 1, cend = i + 1, cisAI = isAI line,
                  confidences = [confidence line],
                  creasons = fold setAdd (reasons line) []\<rparr>)))"

definition detectAIBlocks :: "LineAnalysis list \<Rightarrow> AIBlock list" where
  "detectAIBlocks la =
     (case foldl (blockStep la) ([], None) [0..<length la] of
        (blocks, cb) \<Rightarrow> pushBlock cb blocks)"

section \<open>The contextual refiner\<close>

text \<open>The body of the first loop (the sandwiching rule), at index \<open>i\<close>.\<close>

definition sandwichStep :: "LineAnalysis list \<Rightarrow> nat \<Rightarrow> LineAnalysis list" where
  "sandwichStep la i =
     (let currentLine = la ! i; prevLine = la ! (i - 1); nextLine = la ! (i + 1) in
      if blank currentLine then la
      else if \<not> isAI currentLine \<and> isAI prevLine \<and> isAI nextLine
              \<and> \<not> isCreativeHumanCode (content currentLine) then
        la[i := currentLine\<lparr>isAI := True, confidence := max (confidence currentLine) 0.8,
             reasons := reasons currentLine @ [''Line sandwiched between AI-generated code blocks'']\<rparr>]
      else la)"

text \<open>
  The look-ahead of the second loop: \<open>for (j = i + 1; j < Math.min(i + 4, length); j++)\<close>,
  left at the first non-blank AI line.
\<close>

function lookAhead :: "LineAnalysis list \<Rightarrow> nat \<Rightarrow> nat \<Rightarrow> bool" where
  "lookAhead la j bound =
     (if j < bound then
        (if \<not> blank (la ! j) \<and> isAI (la ! j) then True else lookAhead la (j + 1) bound)
      else False)"
  by pat_completeness auto
termination
  by (relation "measure (\<lambda>(la, j, bound). bound - j)") auto

definition aiContinues :: "LineAnalysis list \<Rightarrow> nat \<Rightarrow> bool" where
  "aiContinues la i = lookAhead la (i + 1) (min (i + 4) (length la))"

text \<open>The body of the second loop, at index \<open>i\<close>, on the lines and \<open>consecutiveAICount\<close>.\<close>

definition extendStep :: "LineAnalysis list \<times> nat \<Rightarrow> nat \<Rightarrow> LineAnalysis list \<times> nat" where
  "extendStep st i =
     (case st of (la, consecutiveAICount) \<Rightarrow>
        (let line = la ! i in
         if blank line then (la, 0)
         else if isAI line then
           (if consecutiveAICount + 1 \<ge> 3
            then (la[i := line\<lparr>confidence := min (confidence line + 0.1) 0.95\<rparr>],
                  consecutiveAICount + 1)
            else (la, consecutiveAICount + 1))
         else
           (if consecutiveAICount \<ge> 2 \<and> \<not> isCreativeHumanCode (content line) \<and> aiContinues la i
            then la[i := line\<lparr>isAI := True, confidence := max (confidence line) 0.75,
                   reasons := reasons line @ [''Part of extended AI-generated code block'']\<rparr>]
            else la, 0)))"

definition applyContextualAnalysis :: "LineAnalysis list \<Rightarrow> LineAnalysis list" where
  "applyContextualAnalysis la =
     fst (foldl extendStep (foldl sandwichStep la [1..<length la - 1], 0) [0..<length la])"

section \<open>The analysis of a text\<close>

record AnalysisResult =
  totalLines :: nat
  aiLines :: nat
  humanLines :: nat
  aiPercentage :: real
  humanPercentage :: real
  overallConfidence :: real
  lineAnalysis :: "LineAnalysis list"
  aiBlocks :: "AIBlock list"

text \<open>The adjustment of a line's verdict by the structure score.\<close>

definition adjust :: "real \<Rightarrow> LineAnalysis \<Rightarrow> LineAnalysis" where
  "adjust structureScore analysis =
     (if structureScore > 0.5 \<and> isAI analysis
      then analysis\<lparr>confidence := min (confidence analysis + 0.1) 0.95\<rparr>
      else analysis)"

text \<open>
  The loop over the lines, from line \<open>i\<close> on: a \<open>TypeError\<close> of \<open>analyzeLine\<close> leaves the
  loop and the function.
\<close>

fun analyzeLines :: "store \<Rightarrow> real \<Rightarrow> jsstring \<Rightarrow> nat \<Rightarrow> jsstring list \<Rightarrow> LineAnalysis list \<Rightarrow>
    (error + LineAnalysis list) \<times> store" where
  "analyzeLines \<sigma> structureScore language i [] acc = (Inr acc, \<sigma>)"
| "analyzeLines \<sigma> structureScore language i (l # ls) acc =
     (case analyzeLine \<sigma> l (i + 1) language of
        (Inl e, \<sigma>') \<Rightarrow> (Inl e, \<sigma>')
      | (Inr analysis, \<sigma>') \<Rightarrow>
          analyzeLines \<sigma>' structureScore language (i + 1) ls (acc @ [adjust structureScore analysis]))"

subsection \<open>Rounding to a double\<close>

text \<open>
  The length of the binary numeral of a natural number, and with it the exponent \<open>e\<close> of
  a positive \<open>x\<close>: \<open>2 ^ e \<le> x < 2 ^ (e + 1)\<close>.
\<close>

function bitLength :: "nat \<Rightarrow> nat" where
  "bitLength n = (if n = 0 then 0 else Suc (bitLength (n div 2)))"
  by pat_completeness auto
termination by (relation "measure id") auto

declare bitLength.simps [simp del]

definition exponent :: "real \<Rightarrow> int" where
  "exponent x = (if 1 \<le> x then int (bitLength (nat \<lfloor>x\<rfloor>)) - 1
                 else - int (bitLength (nat \<lceil>1 / x\<rceil> - 1)))"

text \<open>The nearest integer, the even one of the two when \<open>x\<close> is half-way.\<close>

definition roundTiesToEven :: "real \<Rightarrow> int" where
  "roundTiesToEven x =
     (let f = \<lfloor>x\<rfloor> in
      if x - of_int f < 1 / 2 then f
      else if 1 / 2 < x - of_int f then f + 1
      else if even f then f else f + 1)"

text \<open>
  The double that an arithmetic operation returns for the exact result \<open>x\<close>: the nearest
  number with a significand of 53 bits, ties to even (IEEE 754 \<open>roundTiesToEven\<close>, the
  rounding of every ECMAScript operator). The range of the exponent is not bounded here:
  the results rounded below are quotients of two line counts and their products by 100,
  an array has fewer than \<open>2 ^ 32\<close> elements, so they are 0 or lie between \<open>1 / 2 ^ 32\<close>
  and 100, where a double is neither subnormal nor infinite.
\<close>

definition toDouble :: "real \<Rightarrow> real" where
  "toDouble x =
     (if x = 0 then 0
      else let e = exponent \<bar>x\<bar> - 52 in
        if 0 \<le> e then of_int (roundTiesToEven (x / 2 ^ nat e)) * 2 ^ nat e
        else of_int (roundTiesToEven (x * 2 ^ nat (- e))) / 2 ^ nat (- e))"

text \<open>\<open>2\<^sup>e\<close> for an integer \<open>e\<close>.\<close>

definition scale :: "int \<Rightarrow> real" where
  "scale e = (if 0 \<le> e then 2 ^ nat e else 1 / 2 ^ nat (- e))"

text \<open>
  The statistics and the result, from the refined lines. The counts are lengths of arrays,
  exact as doubles; \<open>(aiLines / totalLines) * 100\<close> rounds the quotient, then the product.
\<close>

definition summarize :: "LineAnalysis list \<Rightarrow> AnalysisResult" where
  "summarize la =
     (let nonEmptyLines = filter (\<lambda>l. \<not> blank l) la;
          ai = length (filter isAI nonEmptyLines);
          human = length nonEmptyLines - ai;
          total = length nonEmptyLines
      in \<lparr>totalLines = total, aiLines = ai, humanLines = human,
           aiPercentage =
             (if total > 0 then toDouble (toDouble (real ai / real total) * 100) else 0),
           humanPercentage =
             (if total > 0 then toDouble (toDouble (real human / real total) * 100) else 0),
           overallConfidence =
             (if length nonEmptyLines > 0
              then foldl (\<lambda>sum line. sum + confidence line) 0 nonEmptyLines
                     / real (length nonEmptyLines)
              else 0.5),
           lineAnalysis = la, aiBlocks = detectAIBlocks la\<rparr>)"

text \<open>
  \<open>analyzeCode\<close>, without its delay: the result, or the error that rejects the promise,
  and the store it leaves behind.
\<close>

definition analyzeCode :: "store \<Rightarrow> jsstring \<Rightarrow> jsstring \<Rightarrow> (error + AnalysisResult) \<times> store" where
  "analyzeCode \<sigma> code language =
     (case analyzeLines \<sigma> (analyzeCodeStructure code) language 0 (split_newline code) [] of
        (Inl e, \<sigma>') \<Rightarrow> (Inl e, \<sigma>')
      | (Inr la, \<sigma>') \<Rightarrow> (Inr (summarize (applyContextualAnalysis la)), \<sigma>'))"

text \<open>Lines joined by line feeds, to write a text down.\<close>

fun joinLines :: "jsstring list \<Rightarrow> jsstring" where
  "joinLines [] = []"
| "joinLines [l] = l"
| "joinLines (l # ls) = l @ 10 # joinLines ls"

section \<open>Vocabulary of the properties\<close>

text \<open>
  The bounds of a verdict: a blank line is neutral (confidence 0.5, human), a non-blank
  line has its confidence between 0.10 and 0.95.
\<close>

definition bounded :: "LineAnalysis \<Rightarrow> bool" where
  "bounded l = (if blank l then confidence l = 0.5 \<and> \<not> isAI l
                else 0.1 \<le> confidence l \<and> confidence l \<le> 0.95)"

text \<open>A verdict \<open>q\<close> of the line of \<open>p\<close> that is no less confident and no less AI than \<open>p\<close>.\<close>

definition towardsAI :: "LineAnalysis \<Rightarrow> LineAnalysis \<Rightarrow> bool" where
  "towardsAI p q = (content q = content p \<and> confidence p \<le> confidence q \<and> (isAI p \<longrightarrow> isAI q))"

definition refines :: "LineAnalysis list \<Rightarrow> LineAnalysis list \<Rightarrow> bool" where
  "refines la0 la = (list_all bounded la \<and> list_all2 towardsAI la0 la)"

text \<open>
  The verdicts of \<open>analyzeLine\<close> on the lines, in order, before any adjustment: the loop
  of \<open>analyzeCode\<close> under the structure score 0, which adjusts nothing.
\<close>

definition rawVerdicts :: "store \<Rightarrow> jsstring \<Rightarrow> jsstring list \<Rightarrow> (error + LineAnalysis list) \<times> store" where
  "rawVerdicts \<sigma> language ls = analyzeLines \<sigma> 0 language 0 ls []"

text \<open>Texts to run the analysis on.\<close>

definition blank_example :: jsstring where
  "blank_example = joinLines [js ''nums'', js [], js ''x = 1'']"

definition thirds_example :: jsstring where
  "thirds_example = joinLines [js ''x'', js ''x'', js ''nums'']"

definition sandwich_example :: jsstring where
  "sandwich_example = joinLines [js ''nums'', js ''x = 1'', js ''# Step 1:'']"

text \<open>
  The lines of a block, from \<open>startLine\<close> to \<open>endLine\<close>, and its classification: an
  \<open>AIBlock\<close> does not record \<open>isAI\<close>, so it is read off the first line of the block (all
  the non-blank lines of a block have it, and the tier of the block is computed from it).
\<close>

definition members :: "LineAnalysis list \<Rightarrow> AIBlock \<Rightarrow> LineAnalysis list" where
  "members la b = take (endLine b + 1 - startLine b) (drop (startLine b - 1) la)"

definition blockIsAI :: "LineAnalysis list \<Rightarrow> AIBlock \<Rightarrow> bool" where
  "blockIsAI la b = isAI (la ! (startLine b - 1))"

text \<open>
  A run that is maximal to the left: after any non-blank line before index \<open>s\<close> there is,
  still before \<open>s\<close>, a non-blank line whose classification is not \<open>cls\<close>.
\<close>

definition leftMax :: "LineAnalysis list \<Rightarrow> nat \<Rightarrow> bool \<Rightarrow> bool" where
  "leftMax la s cls = (\<forall>j<s. \<not> blank (la ! j) \<longrightarrow> (\<exists>k. j \<le> k \<and> k < s \<and> \<not> blank (la ! k) \<and> isAI (la ! k) \<noteq> cls))"

text \<open>The invariant of the loop of \<open>detectAIBlocks\<close>, after the first \<open>n\<close> lines.\<close>

definition goodBlock :: "LineAnalysis list \<Rightarrow> AIBlock \<Rightarrow> bool" where
  "goodBlock la b =
     (1 \<le> startLine b \<and> startLine b < endLine b \<and> endLine b \<le> length la
      \<and> \<not> blank (la ! (startLine b - 1)) \<and> \<not> blank (la ! (endLine b - 1))
      \<and> (\<forall>j. startLine b - 1 \<le> j \<longrightarrow> j < endLine b \<longrightarrow> \<not> blank (la ! j) \<longrightarrow> isAI (la ! j) = blockIsAI la b)
      \<and> confidenceLevel b = getConfidenceLevel (blockConfidence b) (blockIsAI la b)
      \<and> leftMax la (startLine b - 1) (blockIsAI la b))"

definition curOK :: "LineAnalysis list \<Rightarrow> nat \<Rightarrow> AIBlock list \<Rightarrow> currentBlock \<Rightarrow> bool" where
  "curOK la n blocks c =
     (1 \<le> cstart c \<and> cstart c \<le> cend c \<and> cend c \<le> n
      \<and> \<not> blank (la ! (cstart c - 1)) \<and> \<not> blank (la ! (cend c - 1))
      \<and> (\<forall>j. cstart c - 1 \<le> j \<longrightarrow> j < n \<longrightarrow> \<not> blank (la ! j) \<longrightarrow> isAI (la ! j) = cisAI c)
      \<and> (\<forall>j. cend c \<le> j \<longrightarrow> j < n \<longrightarrow> blank (la ! j))
      \<and> (2 \<le> length (confidences c) \<longrightarrow> cstart c < cend c)
      \<and> leftMax la (cstart c - 1) (cisAI c)
      \<and> (\<forall>b\<in>set blocks. endLine b < cstart c))"

definition ordered :: "AIBlock list \<Rightarrow> bool" where
  "ordered blocks = sorted_wrt (\<lambda>b b'. endLine b < startLine b') blocks"

definition blocksInv :: "LineAnalysis list \<Rightarrow> nat \<Rightarrow> AIBlock list \<times> currentBlock option \<Rightarrow> bool" where
  "blocksInv la n st =
     (case st of (blocks, cb) \<Rightarrow>
        (\<forall>b\<in>set blocks. goodBlock la b) \<and> ordered blocks \<and>
        (case cb of
           None \<Rightarrow> blocks = [] \<and> (\<forall>j<n. blank (la ! j))
         | Some c \<Rightarrow> curOK la n blocks c))"

text \<open>Verdicts and texts of the examples.\<close>

definition verdict_nums :: LineAnalysis where
  "verdict_nums = \<lparr>content = js ''nums'', isAI = True, confidence = 7 / 8,
     reasons = [''Uses educational variable names typical of AI tutorials'',
                ''Short, concise line suggests human writing'']\<rparr>"

definition verdict_step :: LineAnalysis where
  "verdict_step = \<lparr>content = js ''# Step 1:'', isAI = True, confidence = 9 / 10,
     reasons = [''Contains step-by-step comments typical of AI explanations'',
                ''Short, concise line suggests human writing'']\<rparr>"

definition verdict_foo :: LineAnalysis where
  "verdict_foo = \<lparr>content = js ''foo'', isAI = False, confidence = 19 / 20,
     reasons = [''Short, concise line suggests human writing'',
                ''Uses creative or placeholder naming typical of humans'']\<rparr>"

definition verdict_x :: LineAnalysis where
  "verdict_x = \<lparr>content = js ''x = 1'', isAI = False, confidence = 19 / 20,
     reasons = [''Uses short variable names common in human code'',
                ''Short, concise line suggests human writing'']\<rparr>"

definition verdict_blank :: LineAnalysis where
  "verdict_blank = \<lparr>content = [], isAI = False, confidence = 1 / 2,
     reasons = [''Empty line - neutral'']\<rparr>"

definition runs_example :: jsstring where
  "runs_example = joinLines [js ''nums'', js ''# Step 1:'', js ''foo'', js ''nums'', js ''# Step 1:'']"

definition runs_example_lines :: "LineAnalysis list" where
  "runs_example_lines = [verdict_nums, verdict_step, verdict_foo, verdict_nums, verdict_step]"

definition runs_example_blocks :: "AIBlock list" where
  "runs_example_blocks =
     [\<lparr>startLine = 1, endLine = 2, confidenceLevel = StronglyAI, blockConfidence = 71 / 80,
       blockReasons = [''Uses educational variable names typical of AI tutorials'',
                       ''Short, concise line suggests human writing'',
                       ''Contains step-by-step comments typical of AI explanations'']\<rparr>,
      \<lparr>startLine = 4, endLine = 5, confidenceLevel = StronglyAI, blockConfidence = 71 / 80,
       blockReasons = [''Uses educational variable names typical of AI tutorials'',
                       ''Short, concise line suggests human writing'',
                       ''Contains step-by-step comments typical of AI explanations'']\<rparr>]"

definition gap_example :: jsstring where
  "gap_example = joinLines [js ''nums'', js ''# Step 1:'', js ''x = 1'', js [], js [], js [], js ''nums'']"

definition gap_example_lines :: "LineAnalysis list" where
  "gap_example_lines =
     [verdict_nums, verdict_step, verdict_x, verdict_blank, verdict_blank, verdict_blank, verdict_nums]"

definition flip_example_lines :: "LineAnalysis list" where
  "flip_example_lines = [verdict_nums, verdict_step, verdict_x, verdict_blank, verdict_nums]"

section \<open>Evaluation\<close>

lemma atLeast_rx_numeral: "atLeast_rx (numeral k) r = Seq r (atLeast_rx (pred_numeral k) r)"
  by (simp add: numeral_eq_Suc)

lemma bitLength_0: "bitLength 0 = 0"
  by (simp add: bitLength.simps)

lemma bitLength_1: "bitLength 1 = 1"
  by (subst bitLength.simps) (simp add: bitLength_0)

lemma bitLength_Suc_0: "bitLength (Suc 0) = 1"
  using bitLength_1 by simp

lemma bitLength_numeral: "bitLength (numeral k) = Suc (bitLength (numeral k div 2))"
  by (subst bitLength.simps) simp

lemmas rx_defs = rx_step_def rx_verbose_def rx_example_def rx_optimization_def
  rx_educational_def rx_labeled_def rx_function_def rx_conditional_def rx_indent_def
  rx_debug_print_def rx_todo_def rx_casual_def rx_short_names_def rx_spacing_def rx_assign_def
  rx_hardcoded_def rx_console_log_def rx_js_function_def rx_py_print_def rx_py_def_def
  rx_ts_annotation_def rx_comment_def rx_error_handling_def rx_punctuation_def rx_imperfect_def
  rx_quirky_def rx_creative_tag_def rx_creative_names_def rx_creative_log_def
  rx_creative_slash_tag_def rx_creative_casual_def rx_creative_punct_def rx_creative_expr_def
  alpha_def ws_def dg_def wd_def quote_def plus_def fl_none_def fl_i_def fl_s_def fl_g_def
  fl_gi_def fl_gm_def fl_gs_def atLeast_rx_numeral

lemmas run_defs = js_def isLineTerminator_def isWhiteSpace_def isWordChar_def trim_def canon_def
  inClass_def posAt_def regexp_test_def matches_def AI_PATTERNS_def javascript_patterns_def
  python_patterns_def typescript_patterns_def fresh_def objectPrototypeKeys_def
  LANGUAGE_PATTERNS_def leadingWhitespace_def ratio_gt_def analyzeCodeStructure_def
  heuristics_def lineScores_def analyzeLine_def creativePatterns_def isCreativeHumanCode_def
  getConfidenceLevel_def setAdd_def blank_def pushBlock_def blockStep_def detectAIBlocks_def
  sandwichStep_def aiContinues_def extendStep_def applyContextualAnalysis_def adjust_def
  summarize_def analyzeCode_def rawVerdicts_def blank_example_def sandwich_example_def Let_def
  toDouble_def exponent_def roundTiesToEven_def bitLength_0 bitLength_1 bitLength_Suc_0
  bitLength_numeral thirds_example_def

lemmas example_defs = verdict_nums_def verdict_step_def verdict_foo_def verdict_x_def
  verdict_blank_def runs_example_def runs_example_lines_def runs_example_blocks_def
  gap_example_def gap_example_lines_def flip_example_lines_def

section \<open>Calls are not independent of each other\<close>

text \<open>
  Claim C1 (two calls of \<open>analyzeCode\<close> on the same text and label give the same result;
  no state is carried from one call to the next). The general patterns carry the \<open>g\<close>
  flag and are tested with \<open>test\<close>, which leaves the end of the match in \<open>lastIndex\<close> of
  the shared \<open>RegExp\<close>. On a freshly loaded module the text \<open>nums\<close> is one AI line (100
  per cent); the next call on the same text starts the educational-names pattern at
  index 4, finds nothing, and reports one human line (0 per cent).
\<close>

theorem analyzeCode_second_call_differs:
  "fst (analyzeCode fresh (js ''nums'') (js [])) =
     Inr \<lparr>totalLines = 1, aiLines = 1, humanLines = 0, aiPercentage = 100,
        humanPercentage = 0, overallConfidence = 7 / 8,
        lineAnalysis =
          [\<lparr>content = js ''nums'', isAI = True, confidence = 7 / 8,
              reasons =
                [''Uses educational variable names typical of AI tutorials'',
                 ''Short, concise line suggests human writing'']\<rparr>],
        aiBlocks = []\<rparr>
   \<and> fst (analyzeCode (snd (analyzeCode fresh (js ''nums'') (js []))) (js ''nums'') (js [])) =
     Inr \<lparr>totalLines = 1, aiLines = 0, humanLines = 1, aiPercentage = 0,
        humanPercentage = 100, overallConfidence = 19 / 20,
        lineAnalysis =
          [\<lparr>content = js ''nums'', isAI = False, confidence = 19 / 20,
              reasons = [''Short, concise line suggests human writing'']\<rparr>],
        aiBlocks = []\<rparr>"
  by (simp add: rx_defs run_defs)

section \<open>Language labels\<close>

text \<open>
  Claim C2 (\<open>analyzeCode\<close> returns a result for every text and every label; a label that
  is not in the registry gives no language rules and no error). The label
  \<open>constructor\<close> is not a key of \<open>LANGUAGE_PATTERNS\<close>, but the lookup finds
  \<open>Object.prototype.constructor\<close>, a function, so \<open>|| []\<close> does not replace it and the
  \<open>for ... of\<close> loop over it raises a \<open>TypeError\<close> on the first non-blank line.
\<close>

theorem analyzeCode_inherited_label_raises:
  "fst (analyzeCode fresh (js ''x'') (js ''constructor'')) = Inl TypeError"
  by (simp add: rx_defs run_defs)

text \<open>
  The error is raised exactly for the labels that name a property of \<open>Object.prototype\<close>,
  on a text with a non-blank line (a blank line returns before the lookup); every other
  label, in the registry or not, gives a result.
\<close>

lemma lineScores_returns:
  assumes "LANGUAGE_PATTERNS language \<noteq> Inherited"
  shows "\<exists>t. fst (lineScores \<sigma> cont language) = Inr t"
proof -
  obtain \<sigma>1 a h rs where p: "applyPatterns General 0 AI_PATTERNS cont (\<sigma>, 0, 0, []) = (\<sigma>1, a, h, rs)"
    by (cases "applyPatterns General 0 AI_PATTERNS cont (\<sigma>, 0, 0, [])") auto
  show ?thesis
  proof (cases "LANGUAGE_PATTERNS language")
    case (Own t ps)
    obtain \<sigma>2 acc where "applyPatterns t 0 ps cont (\<sigma>1, a, h, rs) = (\<sigma>2, acc)"
      by (cases "applyPatterns t 0 ps cont (\<sigma>1, a, h, rs)")
    then have "fst (lineScores \<sigma> cont language) = Inr (heuristics cont acc)"
      by (simp add: lineScores_def p Own)
    then show ?thesis by blast
  next
    case Inherited
    with assms show ?thesis by simp
  next
    case Undefined
    then have "fst (lineScores \<sigma> cont language) = Inr (heuristics cont (a, h, rs))"
      by (simp add: lineScores_def p)
    then show ?thesis by blast
  qed
qed

lemma lineScores_raises:
  assumes "LANGUAGE_PATTERNS language = Inherited"
  shows "fst (lineScores \<sigma> cont language) = Inl TypeError"
  using assms by (simp add: lineScores_def split: prod.splits)

lemma analyzeLine_returns:
  assumes "LANGUAGE_PATTERNS language \<noteq> Inherited"
  shows "\<exists>a. fst (analyzeLine \<sigma> l n language) = Inr a"
proof (cases "trim l = []")
  case True
  then show ?thesis by (simp add: analyzeLine_def)
next
  case False
  from lineScores_returns [OF assms, of \<sigma> "trim l"] obtain t where
    "fst (lineScores \<sigma> (trim l) language) = Inr t" by blast
  then obtain \<sigma>' where "lineScores \<sigma> (trim l) language = (Inr t, \<sigma>')"
    by (cases "lineScores \<sigma> (trim l) language") simp
  then show ?thesis using False
    by (cases t) (simp add: analyzeLine_def Let_def)
qed

lemma analyzeLine_raises:
  assumes "LANGUAGE_PATTERNS language = Inherited" and "trim l \<noteq> []"
  shows "fst (analyzeLine \<sigma> l n language) = Inl TypeError"
proof -
  from lineScores_raises [OF assms(1), of \<sigma> "trim l"] obtain \<sigma>' where
    "lineScores \<sigma> (trim l) language = (Inl TypeError, \<sigma>')"
    by (cases "lineScores \<sigma> (trim l) language") simp
  then show ?thesis using assms(2) by (simp add: analyzeLine_def)
qed

lemma analyzeLines_returns:
  assumes "LANGUAGE_PATTERNS language \<noteq> Inherited"
  shows "\<exists>la. fst (analyzeLines \<sigma> s language i ls acc) = Inr la"
proof (induction ls arbitrary: \<sigma> i acc)
  case Nil
  show ?case by simp
next
  case (Cons l ls)
  from analyzeLine_returns [OF assms, of \<sigma> l "i + 1"] obtain a \<sigma>' where
    "analyzeLine \<sigma> l (i + 1) language = (Inr a, \<sigma>')"
    by (cases "analyzeLine \<sigma> l (i + 1) language") auto
  then show ?case using Cons.IH [of \<sigma>' "i + 1" "acc @ [adjust s a]"] by simp
qed

lemma analyzeLines_raises:
  assumes "LANGUAGE_PATTERNS language = Inherited" and "list_ex (\<lambda>l. trim l \<noteq> []) ls"
  shows "fst (analyzeLines \<sigma> s language i ls acc) = Inl TypeError"
  using assms(2)
proof (induction ls arbitrary: \<sigma> i acc)
  case Nil
  then show ?case by simp
next
  case (Cons l ls)
  show ?case
  proof (cases "trim l = []")
    case True
    then have "analyzeLine \<sigma> l (i + 1) language =
        (Inr \<lparr>content = l, isAI = False, confidence = 0.5, reasons = [''Empty line - neutral'']\<rparr>, \<sigma>)"
      by (simp add: analyzeLine_def)
    moreover from Cons.prems True have "list_ex (\<lambda>l. trim l \<noteq> []) ls" by simp
    ultimately show ?thesis using Cons.IH by simp
  next
    case False
    from analyzeLine_raises [OF assms(1) False, of \<sigma> "i + 1"] obtain \<sigma>' where
      "analyzeLine \<sigma> l (i + 1) language = (Inl TypeError, \<sigma>')"
      by (cases "analyzeLine \<sigma> l (i + 1) language") simp
    then show ?thesis by simp
  qed
qed

lemma analyzeCode_returns:
  assumes "LANGUAGE_PATTERNS language \<noteq> Inherited"
  shows "\<exists>r. fst (analyzeCode \<sigma> code language) = Inr r"
proof -
  from analyzeLines_returns [OF assms, of \<sigma> "analyzeCodeStructure code" 0 "split_newline code" "[]"]
  obtain la \<sigma>' where
    "analyzeLines \<sigma> (analyzeCodeStructure code) language 0 (split_newline code) [] = (Inr la, \<sigma>')"
    by (cases "analyzeLines \<sigma> (analyzeCodeStructure code) language 0 (split_newline code) []") auto
  then show ?thesis by (simp add: analyzeCode_def)
qed

lemma analyzeCode_raises:
  assumes "LANGUAGE_PATTERNS language = Inherited"
    and "list_ex (\<lambda>l. trim l \<noteq> []) (split_newline code)"
  shows "fst (analyzeCode \<sigma> code language) = Inl TypeError"
proof -
  from analyzeLines_raises [OF assms, of \<sigma> "analyzeCodeStructure code" 0 "[]"]
  obtain \<sigma>' where
    "analyzeLines \<sigma> (analyzeCodeStructure code) language 0 (split_newline code) [] = (Inl TypeError, \<sigma>')"
    by (cases "analyzeLines \<sigma> (analyzeCodeStructure code) language 0 (split_newline code) []") simp
  then show ?thesis by (simp add: analyzeCode_def)
qed

section \<open>The labelled print statement\<close>

text \<open>
  Claim C8, where the code departs from it: the claim holds of the first call on a freshly
  loaded module, where the one-line text \<open>print("Original:", nums)\<close> under the label
  \<open>python\<close> fires the educational-variable-names rule and the labelled-output rule (and
  the debug-print rule of Python), is classified AI and has the confidence 8/9. The same
  call made once more fires no rule at all: the three \<open>g\<close> patterns resume behind their
  last match, the line is HUMAN with the neutral confidence 0.5. It is the \<open>lastIndex\<close>
  carried from call to call (section ``Calls are not independent of each other''), on the
  input of this claim.
\<close>

theorem analyzeCode_labeled_print_second_call:
  \<open>fst (analyzeCode fresh (js ''print("Original:", nums)'') (js ''python'')) =
     Inr \<lparr>totalLines = 1, aiLines = 1, humanLines = 0, aiPercentage = 100,
        humanPercentage = 0, overallConfidence = 8 / 9,
        lineAnalysis =
          [\<lparr>content = js ''print("Original:", nums)'', isAI = True, confidence = 8 / 9,
              reasons =
                [''Uses educational variable names typical of AI tutorials'',
                 ''Contains labeled output statements typical of AI examples'',
                 ''Contains debug print statements'']\<rparr>],
        aiBlocks = []\<rparr>
    \<and> fst (analyzeCode
          (snd (analyzeCode fresh (js ''print("Original:", nums)'') (js ''python'')))
          (js ''print("Original:", nums)'') (js ''python'')) =
     Inr \<lparr>totalLines = 1, aiLines = 0, humanLines = 1, aiPercentage = 0,
        humanPercentage = 100, overallConfidence = 1 / 2,
        lineAnalysis =
          [\<lparr>content = js ''print("Original:", nums)'', isAI = False, confidence = 1 / 2,
              reasons = [''No significant patterns detected - neutral classification'']\<rparr>],
        aiBlocks = []\<rparr>\<close>
proof -
  have first: \<open>fst (analyzeCode fresh (js ''print("Original:", nums)'') (js ''python'')) =
     Inr \<lparr>totalLines = 1, aiLines = 1, humanLines = 0, aiPercentage = 100,
        humanPercentage = 0, overallConfidence = 8 / 9,
        lineAnalysis =
          [\<lparr>content = js ''print("Original:", nums)'', isAI = True, confidence = 8 / 9,
              reasons =
                [''Uses educational variable names typical of AI tutorials'',
                 ''Contains labeled output statements typical of AI examples'',
                 ''Contains debug print statements'']\<rparr>],
        aiBlocks = []\<rparr>\<close>
    by (simp add: rx_defs run_defs)
  have second: \<open>fst (analyzeCode
          (snd (analyzeCode fresh (js ''print("Original:", nums)'') (js ''python'')))
          (js ''print("Original:", nums)'') (js ''python'')) =
     Inr \<lparr>totalLines = 1, aiLines = 0, humanLines = 1, aiPercentage = 0,
        humanPercentage = 100, overallConfidence = 1 / 2,
        lineAnalysis =
          [\<lparr>content = js ''print("Original:", nums)'', isAI = False, confidence = 1 / 2,
              reasons = [''No significant patterns detected - neutral classification'']\<rparr>],
        aiBlocks = []\<rparr>\<close>
    by (simp add: rx_defs run_defs)
  from first second show ?thesis by (intro conjI)
qed

section \<open>Lines and their verdicts\<close>

lemma foldl_invariant:
  assumes "P s" and "\<And>s x. x \<in> set xs \<Longrightarrow> P s \<Longrightarrow> P (f s x)"
  shows "P (foldl f s xs)"
  using assms by (induction xs arbitrary: s) auto

lemma clamp_bounds:
  "(0.1::real) \<le> min (max c 0.1) 0.95" "min (max c 0.1) 0.95 \<le> (0.95::real)"
  by simp_all

lemma analyzeLine_blank:
  assumes "analyzeLine \<sigma> l n language = (Inr a, \<sigma>')" and "trim l = []"
  shows "a = \<lparr>content = l, isAI = False, confidence = 0.5, reasons = [''Empty line - neutral'']\<rparr>"
  using assms by (auto simp: analyzeLine_def)

lemma analyzeLine_nonblank:
  assumes "analyzeLine \<sigma> l n language = (Inr a, \<sigma>')" and "trim l \<noteq> []"
  shows "\<exists>ai hu rs. lineScores \<sigma> (trim l) language = (Inr (ai, hu, rs), \<sigma>') \<and>
           content a = l \<and> isAI a = (ai > hu) \<and>
           confidence a = min (max (if ai + hu > 0 then max ai hu / (ai + hu) else 0.5) 0.1) 0.95"
proof (cases "lineScores \<sigma> (trim l) language")
  case (Pair x \<sigma>1)
  show ?thesis
  proof (cases x)
    case (Inl e)
    with Pair assms show ?thesis by (simp add: analyzeLine_def)
  next
    case (Inr t)
    obtain ai hu rs where t: "t = (ai, hu, rs)" by (cases t)
    have "analyzeLine \<sigma> l n language =
        (Inr \<lparr>content = l, isAI = (ai > hu),
           confidence = min (max (if ai + hu > 0 then max ai hu / (ai + hu) else 0.5) 0.1) 0.95,
           reasons = (if rs = []
             then [''No significant patterns detected - neutral classification''] else rs)\<rparr>, \<sigma>1)"
      using assms(2) by (simp only: analyzeLine_def Pair Inr t if_False prod.case sum.case Let_def)
    with assms(1) have "\<sigma>1 = \<sigma>'" and "a = \<lparr>content = l, isAI = (ai > hu),
           confidence = min (max (if ai + hu > 0 then max ai hu / (ai + hu) else 0.5) 0.1) 0.95,
           reasons = (if rs = []
             then [''No significant patterns detected - neutral classification''] else rs)\<rparr>"
      by (simp_all only: prod.inject sum.inject)
    then show ?thesis using Pair Inr t
      by (intro exI [of _ ai] exI [of _ hu] exI [of _ rs]) (simp only: LineAnalysis.simps simp_thms)
  qed
qed

lemma analyzeLine_Inr:
  assumes "analyzeLine \<sigma> l n language = (Inr a, \<sigma>')"
  shows "content a = l" and "bounded a"
proof -
  show "content a = l"
    using analyzeLine_blank [OF assms] analyzeLine_nonblank [OF assms] by (cases "trim l = []") auto
  show "bounded a"
  proof (cases "trim l = []")
    case True
    from analyzeLine_blank [OF assms True] show ?thesis
      by (simp add: bounded_def blank_def True)
  next
    case False
    from analyzeLine_nonblank [OF assms False] obtain c where
      c: "content a = l" "confidence a = min (max c 0.1) 0.95" by blast
    have "\<not> blank a" using c False by (simp add: blank_def)
    moreover have "0.1 \<le> confidence a" "confidence a \<le> 0.95"
      unfolding c(2) by (rule clamp_bounds)+
    ultimately show ?thesis by (simp add: bounded_def)
  qed
qed

lemma adjust_content [simp]: "content (adjust s a) = content a"
  by (simp add: adjust_def)

lemma adjust_bounded: "bounded a \<Longrightarrow> bounded (adjust s a)"
  by (auto simp: adjust_def bounded_def blank_def min_def)

lemma adjust_towardsAI: "bounded a \<Longrightarrow> towardsAI a (adjust s a)"
  by (auto simp: adjust_def bounded_def towardsAI_def min_def split: if_splits)

lemma adjust_zero [simp]: "adjust 0 a = a"
  by (simp add: adjust_def)

lemma towardsAI_refl [simp]: "towardsAI p p"
  by (simp add: towardsAI_def)

lemma towardsAI_trans: "towardsAI p q \<Longrightarrow> towardsAI q r \<Longrightarrow> towardsAI p r"
  by (auto simp: towardsAI_def)

lemma analyzeLines_Inr:
  assumes "analyzeLines \<sigma> s language i ls acc = (Inr la, \<sigma>')"
  shows "map content la = map content acc @ ls \<and> (list_all bounded acc \<longrightarrow> list_all bounded la)"
  using assms
proof (induction ls arbitrary: \<sigma> i acc)
  case Nil
  then show ?case by simp
next
  case (Cons l ls)
  from Cons.prems obtain a \<sigma>1 where a: "analyzeLine \<sigma> l (i + 1) language = (Inr a, \<sigma>1)"
    and rest: "analyzeLines \<sigma>1 s language (i + 1) ls (acc @ [adjust s a]) = (Inr la, \<sigma>')"
    by (auto split: prod.splits sum.splits)
  from Cons.IH [OF rest] analyzeLine_Inr [OF a] show ?case
    by (auto simp: adjust_bounded)
qed

lemma analyzeLines_adjust:
  "analyzeLines \<sigma> s language i ls (map (adjust s) acc) =
     (case analyzeLines \<sigma> 0 language i ls acc of
        (Inl e, \<sigma>') \<Rightarrow> (Inl e, \<sigma>')
      | (Inr la, \<sigma>') \<Rightarrow> (Inr (map (adjust s) la), \<sigma>'))"
proof (induction ls arbitrary: \<sigma> i acc)
  case Nil
  then show ?case by simp
next
  case (Cons l ls)
  show ?case
  proof (cases "analyzeLine \<sigma> l (i + 1) language")
    case (Pair x \<sigma>1)
    show ?thesis
    proof (cases x)
      case (Inl e)
      with Pair show ?thesis by simp
    next
      case (Inr a)
      with Pair Cons.IH [of \<sigma>1 "i + 1" "acc @ [a]"] show ?thesis by simp
    qed
  qed
qed

section \<open>The refiner keeps the bounds and moves towards AI\<close>

lemma refines_refl: "list_all bounded la \<Longrightarrow> refines la la"
  by (simp add: refines_def list_all2_conv_all_nth)

lemma refines_length: "refines la0 la \<Longrightarrow> length la = length la0"
  by (auto simp: refines_def dest: list_all2_lengthD)

lemma refines_update:
  assumes "refines la0 la" and "i < length la" and "bounded x" and "towardsAI (la ! i) x"
  shows "refines la0 (la[i := x])"
proof -
  have "list_all bounded (la[i := x])"
    using assms(1,3) set_update_subset_insert [of la i x]
    by (auto simp: refines_def list_all_iff)
  moreover have "list_all2 towardsAI la0 (la[i := x])"
    using assms towardsAI_trans
    by (auto simp: refines_def list_all2_conv_all_nth nth_list_update)
  ultimately show ?thesis by (simp add: refines_def)
qed

lemma refines_nth: "refines la0 la \<Longrightarrow> i < length la \<Longrightarrow> bounded (la ! i)"
  by (simp add: refines_def list_all_length)

lemma sandwichStep_refines:
  assumes "refines la0 la" and "i < length la"
  shows "refines la0 (sandwichStep la i)"
proof -
  have b: "bounded (la ! i)" using assms by (rule refines_nth)
  show ?thesis
    unfolding sandwichStep_def Let_def
    using assms b
    by (auto intro!: refines_update simp: bounded_def blank_def towardsAI_def max_def)
qed

lemma extendStep_refines:
  assumes "refines la0 la" and "i < length la"
  shows "refines la0 (fst (extendStep (la, cnt) i))"
proof -
  have b: "bounded (la ! i)" using assms by (rule refines_nth)
  show ?thesis
    unfolding extendStep_def Let_def
    using assms b
    by (auto intro!: refines_update simp: bounded_def blank_def towardsAI_def max_def min_def)
qed

lemma applyContextualAnalysis_refines:
  assumes "list_all bounded la"
  shows "refines la (applyContextualAnalysis la)"
proof -
  let ?A = "foldl sandwichStep la [1..<length la - 1]"
  have A: "refines la ?A"
  proof (rule foldl_invariant [where P = "refines la"])
    show "refines la la" using assms by (rule refines_refl)
  next
    fix s x assume "x \<in> set [1..<length la - 1]" and s: "refines la s"
    then have "x < length s" using refines_length [OF s] by auto
    with s show "refines la (sandwichStep s x)" by (rule sandwichStep_refines)
  qed
  have "refines la (fst (foldl extendStep (?A, 0) [0..<length la]))"
  proof (rule foldl_invariant [where P = "\<lambda>st. refines la (fst st)"])
    show "refines la (fst (?A, 0::nat))" using A by simp
  next
    fix st :: "LineAnalysis list \<times> nat" and x
    assume "x \<in> set [0..<length la]" and s: "refines la (fst st)"
    then have "x < length (fst st)" using refines_length [OF s] by simp
    with s have "refines la (fst (extendStep (fst st, snd st) x))" by (rule extendStep_refines)
    then show "refines la (fst (extendStep st x))" by simp
  qed
  then show ?thesis by (simp add: applyContextualAnalysis_def)
qed

lemma analyzeCode_Inr:
  assumes "fst (analyzeCode \<sigma> code language) = Inr r"
  shows "\<exists>la \<sigma>'. analyzeLines \<sigma> (analyzeCodeStructure code) language 0 (split_newline code) [] = (Inr la, \<sigma>')
           \<and> r = summarize (applyContextualAnalysis la)"
  using assms by (auto simp: analyzeCode_def split: prod.splits sum.splits)

lemma lineAnalysis_summarize [simp]: "lineAnalysis (summarize la) = la"
  by (simp add: summarize_def Let_def)

lemma aiBlocks_summarize [simp]: "aiBlocks (summarize la) = detectAIBlocks la"
  by (simp add: summarize_def Let_def)

lemma refines_content: "refines la0 la \<Longrightarrow> map content la = map content la0"
  by (auto simp: refines_def towardsAI_def list_all2_conv_all_nth intro: nth_equalityI)

lemma analyzeCode_lines:
  assumes "fst (analyzeCode \<sigma> code language) = Inr r"
  shows "map content (lineAnalysis r) = split_newline code" and "list_all bounded (lineAnalysis r)"
proof -
  from analyzeCode_Inr [OF assms] obtain la \<sigma>' where
    la: "analyzeLines \<sigma> (analyzeCodeStructure code) language 0 (split_newline code) [] = (Inr la, \<sigma>')"
    and r: "r = summarize (applyContextualAnalysis la)" by blast
  from analyzeLines_Inr [OF la] have c: "map content la = split_newline code" and b: "list_all bounded la"
    by simp_all
  from applyContextualAnalysis_refines [OF b] have ref: "refines la (applyContextualAnalysis la)" .
  show "map content (lineAnalysis r) = split_newline code"
    using refines_content [OF ref] c r by simp
  show "list_all bounded (lineAnalysis r)"
    using ref r by (simp add: refines_def)
qed

section \<open>The classification of a line\<close>

text \<open>
  Claim C6: for a non-blank line whose scores are \<open>aiScore\<close> and \<open>humanScore\<close>, the
  classifier returns the verdict AI exactly when \<open>aiScore > humanScore\<close> (a tie is HUMAN),
  with the confidence \<open>max(aiScore, humanScore) / (aiScore + humanScore)\<close> when the sum is
  positive and 0.5 otherwise, clamped to [0.10, 0.95]. This is the verdict before the
  structure score adjusts it.
\<close>

theorem analyzeLine_classification:
  assumes "trim line \<noteq> []" and "fst (lineScores \<sigma> (trim line) language) = Inr (aiScore, humanScore, rs)"
  shows "fst (analyzeLine \<sigma> line n language) =
     Inr \<lparr>content = line, isAI = (aiScore > humanScore),
          confidence = min (max (if aiScore + humanScore > 0
                                 then max aiScore humanScore / (aiScore + humanScore) else 0.5) 0.1) 0.95,
          reasons = (if rs = [] then [''No significant patterns detected - neutral classification'']
                     else rs)\<rparr>"
proof -
  obtain \<sigma>' where "lineScores \<sigma> (trim line) language = (Inr (aiScore, humanScore, rs), \<sigma>')"
    using assms(2) by (cases "lineScores \<sigma> (trim line) language") simp
  then show ?thesis
    using assms(1) by (simp only: analyzeLine_def if_False prod.case sum.case Let_def fst_conv)
qed

text \<open>A tie: \<open>nums x foo\<close> scores 0.7 for AI and 0.3 + 0.1 + 0.3 for human, and is HUMAN.\<close>

theorem analyzeLine_classification_witness:
  "trim (js ''nums x foo'') \<noteq> []
   \<and> fst (lineScores fresh (trim (js ''nums x foo'')) (js [])) =
       Inr (7 / 10, 7 / 10,
         [''Uses educational variable names typical of AI tutorials'',
          ''Uses short variable names common in human code'',
          ''Short, concise line suggests human writing'',
          ''Uses creative or placeholder naming typical of humans''])
   \<and> fst (analyzeLine fresh (js ''nums x foo'') 1 (js [])) =
       Inr \<lparr>content = js ''nums x foo'', isAI = False, confidence = 1 / 2,
         reasons =
         [''Uses educational variable names typical of AI tutorials'',
          ''Uses short variable names common in human code'',
          ''Short, concise line suggests human writing'',
          ''Uses creative or placeholder naming typical of humans'']\<rparr>"
proof -
  have t: "trim (js ''nums x foo'') \<noteq> []"
    by (simp add: run_defs)
  have s: "fst (lineScores fresh (trim (js ''nums x foo'')) (js [])) =
       Inr (7 / 10, 7 / 10,
         [''Uses educational variable names typical of AI tutorials'',
          ''Uses short variable names common in human code'',
          ''Short, concise line suggests human writing'',
          ''Uses creative or placeholder naming typical of humans''])"
    by (simp add: rx_defs run_defs)
  from analyzeLine_classification [OF t s, of 1] t s show ?thesis by simp
qed

section \<open>The bounds of the confidence\<close>

text \<open>
  Claim C5: in a result of \<open>analyzeCode\<close> there is one verdict per raw line of the text;
  a non-blank line has its confidence in [0.10, 0.95], and a blank line has confidence
  exactly 0.5 and is HUMAN.
\<close>

theorem analyzeCode_confidence_bounds:
  assumes "fst (analyzeCode \<sigma> code language) = Inr r"
  shows "map content (lineAnalysis r) = split_newline code \<and>
         list_all (\<lambda>l. if trim (content l) = [] then confidence l = 0.5 \<and> \<not> isAI l
                        else 0.1 \<le> confidence l \<and> confidence l \<le> 0.95) (lineAnalysis r)"
  using analyzeCode_lines [OF assms] by (simp add: bounded_def [abs_def] blank_def)

theorem analyzeCode_confidence_bounds_witness:
  "(case fst (analyzeCode fresh blank_example (js ''python'')) of
      Inl e \<Rightarrow> False
    | Inr r \<Rightarrow>
        map content (lineAnalysis r) = split_newline blank_example \<and>
        list_all (\<lambda>l. if trim (content l) = [] then confidence l = 0.5 \<and> \<not> isAI l
                       else 0.1 \<le> confidence l \<and> confidence l \<le> 0.95) (lineAnalysis r) \<and>
        map confidence (lineAnalysis r) = [7 / 8, 1 / 2, 19 / 20])"
proof -
  have "\<exists>r. fst (analyzeCode fresh blank_example (js ''python'')) = Inr r \<and>
          map confidence (lineAnalysis r) = [7 / 8, 1 / 2, 19 / 20]"
    by (simp add: rx_defs run_defs)
  then obtain r where r: "fst (analyzeCode fresh blank_example (js ''python'')) = Inr r"
    and c: "map confidence (lineAnalysis r) = [7 / 8, 1 / 2, 19 / 20]"
    by (elim exE conjE)
  from analyzeCode_confidence_bounds [OF r] c show ?thesis by (simp add: r)
qed

section \<open>Monotonicity of the adjustment and the refiner\<close>

text \<open>
  Claim C9: whenever \<open>analyzeCode\<close> returns a result, \<open>analyzeLine\<close> has given a
  verdict for every line, and line by line the verdict in the result is that of the same
  line, its confidence is no less than the one \<open>analyzeLine\<close> gave before the structure
  adjustment and the refiner, and a line that was AI is still AI.
\<close>

theorem refinement_towards_AI:
  assumes "fst (analyzeCode \<sigma> code language) = Inr r"
  shows "\<exists>pre. fst (rawVerdicts \<sigma> language (split_newline code)) = Inr pre \<and>
           list_all2 (\<lambda>p q. content q = content p \<and> confidence p \<le> confidence q \<and> (isAI p \<longrightarrow> isAI q))
             pre (lineAnalysis r)"
proof -
  let ?s = "analyzeCodeStructure code"
  from analyzeCode_Inr [OF assms] obtain la \<sigma>' where
    la: "analyzeLines \<sigma> ?s language 0 (split_newline code) [] = (Inr la, \<sigma>')"
    and r: "r = summarize (applyContextualAnalysis la)" by blast
  from analyzeLines_adjust [of \<sigma> ?s language 0 "split_newline code" "[]"] la
  obtain pre where pre: "analyzeLines \<sigma> 0 language 0 (split_newline code) [] = (Inr pre, \<sigma>')"
    and lap: "la = map (adjust ?s) pre"
    by (auto split: prod.splits sum.splits)
  from analyzeLines_Inr [OF pre] have bp: "list_all bounded pre" by simp
  from analyzeLines_Inr [OF la] have b: "list_all bounded la" by simp
  from applyContextualAnalysis_refines [OF b]
  have ref: "list_all2 towardsAI la (lineAnalysis r)"
    using r by (simp add: refines_def)
  have "list_all2 towardsAI pre la"
    unfolding lap using bp by (auto simp: list_all2_conv_all_nth list_all_length adjust_towardsAI)
  from list_all2_trans [OF _ this ref] towardsAI_trans have "list_all2 towardsAI pre (lineAnalysis r)"
    by blast
  then have "list_all2 (\<lambda>p q. content q = content p \<and> confidence p \<le> confidence q \<and> (isAI p \<longrightarrow> isAI q))
             pre (lineAnalysis r)"
    by (simp add: towardsAI_def [abs_def])
  with pre show ?thesis by (simp add: rawVerdicts_def)
qed

theorem refinement_towards_AI_witness:
  "(case fst (analyzeCode fresh sandwich_example (js ''python'')) of
      Inl e \<Rightarrow> False
    | Inr r \<Rightarrow>
        (\<exists>pre. fst (rawVerdicts fresh (js ''python'') (split_newline sandwich_example)) = Inr pre \<and>
           list_all2 (\<lambda>p q. content q = content p \<and> confidence p \<le> confidence q \<and> (isAI p \<longrightarrow> isAI q))
             pre (lineAnalysis r) \<and>
           map isAI pre = [True, False, True] \<and> map confidence pre = [7 / 8, 19 / 20, 9 / 10]) \<and>
        map isAI (lineAnalysis r) = [True, True, True] \<and>
        map confidence (lineAnalysis r) = [7 / 8, 19 / 20, 19 / 20])"
proof -
  have "\<exists>pre. fst (rawVerdicts fresh (js ''python'') (split_newline sandwich_example)) = Inr pre \<and>
          map isAI pre = [True, False, True] \<and> map confidence pre = [7 / 8, 19 / 20, 9 / 10]"
    by (simp add: rx_defs run_defs)
  then obtain pre0 where
    pre0: "fst (rawVerdicts fresh (js ''python'') (split_newline sandwich_example)) = Inr pre0"
    and p: "map isAI pre0 = [True, False, True]" "map confidence pre0 = [7 / 8, 19 / 20, 9 / 10]"
    by (elim exE conjE)
  have "\<exists>r. fst (analyzeCode fresh sandwich_example (js ''python'')) = Inr r \<and>
          map isAI (lineAnalysis r) = [True, True, True] \<and>
          map confidence (lineAnalysis r) = [7 / 8, 19 / 20, 19 / 20]"
    by (simp add: rx_defs run_defs)
  then obtain r where r: "fst (analyzeCode fresh sandwich_example (js ''python'')) = Inr r"
    and q: "map isAI (lineAnalysis r) = [True, True, True]"
      "map confidence (lineAnalysis r) = [7 / 8, 19 / 20, 19 / 20]"
    by (elim exE conjE)
  from refinement_towards_AI [OF r] obtain pre where
    pre: "fst (rawVerdicts fresh (js ''python'') (split_newline sandwich_example)) = Inr pre"
    and m: "list_all2 (\<lambda>p q. content q = content p \<and> confidence p \<le> confidence q \<and> (isAI p \<longrightarrow> isAI q))
             pre (lineAnalysis r)"
    by (elim exE conjE)
  from pre pre0 have "pre = pre0" by simp
  with pre m p q show ?thesis by (simp add: r)
qed

section \<open>Rounding\<close>

lemma bitLength_bounds:
  "0 < n \<Longrightarrow> 2 ^ (bitLength n - 1) \<le> n \<and> n < 2 ^ bitLength n"
proof (induction n rule: bitLength.induct)
  case (1 n)
  show ?case
  proof (cases "n div 2 = 0")
    case True
    with 1(2) have "n = 1" by (simp add: div_eq_0_iff) 
    then show ?thesis by (simp add: bitLength.simps)
  next
    case False
    then have pos: "0 < n div 2" by simp
    from 1(1) [OF _ pos] 1(2)
    have ih: "2 ^ (bitLength (n div 2) - 1) \<le> n div 2" "n div 2 < 2 ^ bitLength (n div 2)"
      by simp_all
    have bl: "bitLength n = Suc (bitLength (n div 2))"
      using 1(2) by (subst bitLength.simps) simp
    have pos': "0 < bitLength (n div 2)"
      using pos by (subst bitLength.simps) simp
    then obtain k where k: "bitLength (n div 2) = Suc k" by (cases "bitLength (n div 2)") simp_all
    have "2 * 2 ^ k \<le> 2 * (n div 2)" using ih(1) k by simp
    also have "\<dots> \<le> n" by simp
    finally have lo: "2 ^ (bitLength n - 1) \<le> n" by (simp add: bl k)
    have "n < 2 * (n div 2) + 2" by presburger
    also have "\<dots> \<le> 2 * 2 ^ bitLength (n div 2)" using ih(2) by simp
    finally have hi: "n < 2 ^ bitLength n" by (simp add: bl)
    from lo hi show ?thesis by simp
  qed
qed

lemma scale_pos: "0 < scale e" by (simp add: scale_def)

lemma scale_add: "scale (a + b) = scale a * scale b"
proof -
  have "scale e = 2 powi e" for e
    by (simp add: scale_def power_int_def power_one_over)
  then show ?thesis by (simp add: power_int_add)
qed

lemma scale_mono: "a \<le> b \<Longrightarrow> scale a \<le> scale b"
proof -
  assume le: "a \<le> b"
  have "scale b = scale a * scale (b - a)" using scale_add [of a "b - a"] by simp
  moreover have "1 \<le> scale (b - a)" using le by (simp add: scale_def)
  ultimately show ?thesis using scale_pos [of a] by simp
qed

lemma exponent_bounds:
  assumes "0 < x"
  shows "scale (exponent x) \<le> x \<and> x < scale (exponent x + 1)"
proof (cases "1 \<le> x")
  case True
  define n where "n = nat \<lfloor>x\<rfloor>"
  have n1: "0 < n" using True by (simp add: n_def)
  have n2: "real n \<le> x" using True by (simp add: n_def)
  have n3: "x < real n + 1" using True by (simp add: n_def; linarith)
  note n = n1 n2 n3
  have e: "exponent x = int (bitLength n) - 1" using True by (simp add: exponent_def n_def)
  from bitLength_bounds [OF n(1)] have b: "2 ^ (bitLength n - 1) \<le> n" "n < 2 ^ bitLength n" by simp_all
  have bp: "0 < bitLength n" using n(1) by (subst bitLength.simps) simp
  have "(2::real) ^ (bitLength n - 1) \<le> real n" using of_nat_mono [OF b(1), where ?'a = real] by simp
  then have "2 ^ (bitLength n - 1) \<le> x" using n(2) by linarith
  then have lo: "scale (exponent x) \<le> x" using bp by (simp add: e scale_def nat_diff_distrib')
  have "n + 1 \<le> 2 ^ bitLength n" using b(2) by simp
  then have "real n + 1 \<le> 2 ^ bitLength n" using of_nat_mono [of "n + 1" "2 ^ bitLength n", where ?'a = real] by simp
  then have "x < 2 ^ bitLength n" using n(3) by linarith
  then have hi: "x < scale (exponent x + 1)" by (simp add: e scale_def)
  from lo hi show ?thesis by simp
next
  case False
  define y where "y = 1 / x"
  have y: "1 < y" using False assms by (simp add: y_def)
  define m where "m = nat \<lceil>y\<rceil> - 1"
  have m1: "0 < m" using y by (simp add: m_def; linarith)
  have m2: "real m < y" using y by (simp add: m_def; linarith)
  have m3: "y \<le> real m + 1" using y by (simp add: m_def; linarith)
  note m = m1 m2 m3
  have e: "exponent x = - int (bitLength m)" using False by (simp add: exponent_def m_def y_def)
  from bitLength_bounds [OF m(1)] have b: "2 ^ (bitLength m - 1) \<le> m" "m < 2 ^ bitLength m" by simp_all
  have bp: "0 < bitLength m" using m(1) by (subst bitLength.simps) simp
  have "m + 1 \<le> 2 ^ bitLength m" using b(2) by simp
  then have "real m + 1 \<le> 2 ^ bitLength m" using of_nat_mono [of "m + 1" "2 ^ bitLength m", where ?'a = real] by simp
  then have yle: "y \<le> 2 ^ bitLength m" using m(3) by linarith
  have "(2::real) ^ (bitLength m - 1) \<le> real m" using of_nat_mono [OF b(1), where ?'a = real] by simp
  then have ygt: "2 ^ (bitLength m - 1) < y" using m(2) by linarith
  have x: "x = 1 / y" using assms by (simp add: y_def)
  have s1: "scale (exponent x) = 1 / 2 ^ bitLength m" using bp by (simp add: e scale_def)
  have "1 / 2 ^ bitLength m \<le> 1 / y" using yle y by (simp add: frac_le)
  then have lo: "scale (exponent x) \<le> x" unfolding s1 using x by simp
  have hi: "x < scale (exponent x + 1)"
  proof (cases "bitLength m = 1")
    case True
    then have "scale (exponent x + 1) = 1" by (simp add: e scale_def)
    then show ?thesis using y x by simp
  next
    case False
    then have "1 < bitLength m" using bp by simp
    then have s2: "scale (exponent x + 1) = 1 / 2 ^ (bitLength m - 1)"
      by (simp add: e scale_def nat_diff_distrib')
    have "1 / y < 1 / 2 ^ (bitLength m - 1)" using ygt y by (simp add: frac_less2)
    then show ?thesis unfolding s2 using x by simp
  qed
  from lo hi show ?thesis by simp
qed

lemma roundTiesToEven_near: "\<bar>of_int (roundTiesToEven x) - x\<bar> \<le> 1 / 2"
  by (simp add: roundTiesToEven_def Let_def)

lemma roundTiesToEven_le: "x \<le> of_int N \<Longrightarrow> roundTiesToEven x \<le> N"
  by (simp add: roundTiesToEven_def Let_def) linarith

lemma roundTiesToEven_nonneg: "0 \<le> x \<Longrightarrow> 0 \<le> roundTiesToEven x"
  by (simp add: roundTiesToEven_def Let_def)

lemma toDouble_scale:
  "x \<noteq> 0 \<Longrightarrow> toDouble x = of_int (roundTiesToEven (x / scale (exponent \<bar>x\<bar> - 52))) * scale (exponent \<bar>x\<bar> - 52)"
  by (simp add: toDouble_def Let_def scale_def)

lemma toDouble_error: "\<bar>toDouble x - x\<bar> \<le> \<bar>x\<bar> / 2 ^ 53"
proof (cases "x = 0")
  case True then show ?thesis by (simp add: toDouble_def)
next
  case False
  define s where "s = scale (exponent \<bar>x\<bar> - 52)"
  have s: "0 < s" by (simp add: s_def scale_pos)
  have "scale (exponent \<bar>x\<bar>) = scale ((exponent \<bar>x\<bar> - 52) + 52)" by simp
  also have "\<dots> = s * 2 ^ 52" unfolding scale_add s_def by (simp add: scale_def)
  finally have "s * 2 ^ 52 \<le> \<bar>x\<bar>" using exponent_bounds [of "\<bar>x\<bar>"] False by simp
  then have big: "s / 2 \<le> \<bar>x\<bar> / 2 ^ 53" by simp
  have "toDouble x - x = (of_int (roundTiesToEven (x / s)) - x / s) * s"
    using s by (simp add: toDouble_scale [OF False] s_def [symmetric] algebra_simps)
  then have "\<bar>toDouble x - x\<bar> = \<bar>of_int (roundTiesToEven (x / s)) - x / s\<bar> * s"
    using s by (simp add: abs_mult)
  also have "\<dots> \<le> 1 / 2 * s"
    using roundTiesToEven_near [of "x / s"] s by (intro mult_right_mono) simp_all
  finally show ?thesis using big by simp
qed

lemma toDouble_nonneg: "0 \<le> x \<Longrightarrow> 0 \<le> toDouble x"
  by (simp add: toDouble_def Let_def roundTiesToEven_nonneg)

lemma toDouble_le_int:
  assumes "0 \<le> x" "x \<le> of_int N" "x < 2 ^ 52"
  shows "toDouble x \<le> of_int N"
proof (cases "x = 0")
  case True then show ?thesis using assms by (simp add: toDouble_def)
next
  case False
  then have pos: "0 < x" using assms by simp
  have "scale (exponent x) < scale 52"
    using exponent_bounds [OF pos] assms(3) by (simp add: scale_def)
  then have "exponent x < 52" using scale_mono [of 52 "exponent x"] by linarith
  then have neg: "\<not> 0 \<le> exponent \<bar>x\<bar> - 52" using pos by simp
  define k where "k = nat (- (exponent \<bar>x\<bar> - 52))"
  have td: "toDouble x = of_int (roundTiesToEven (x * 2 ^ k)) / 2 ^ k"
    using False neg by (simp add: toDouble_def Let_def k_def)
  have "x * 2 ^ k \<le> of_int (N * 2 ^ k)" using assms(2) by simp
  then have "roundTiesToEven (x * 2 ^ k) \<le> N * 2 ^ k" by (rule roundTiesToEven_le)
  then have "real_of_int (roundTiesToEven (x * 2 ^ k)) \<le> real_of_int (N * 2 ^ k)"
    by (rule iffD2 [OF of_int_le_iff])
  then show ?thesis by (simp add: td divide_le_eq)
qed

lemma percentage_error:
  assumes "0 \<le> x"
  shows "\<bar>toDouble (toDouble x * 100) - x * 100\<bar> \<le> x * 300 / 2 ^ 53"
proof -
  define d where "d = toDouble x"
  have d0: "0 \<le> d" using assms by (simp add: d_def toDouble_nonneg)
  have e1: "\<bar>d - x\<bar> \<le> x / 2 ^ 53" using toDouble_error [of x] assms by (simp add: d_def)
  then have "d \<le> x + x / 2 ^ 53" by linarith
  also have "\<dots> \<le> 2 * x" using assms by simp
  finally have d2: "d \<le> 2 * x" .
  have "\<bar>toDouble (d * 100) - d * 100\<bar> \<le> d * 100 / 2 ^ 53"
    using toDouble_error [of "d * 100"] d0 by simp
  also have "\<dots> \<le> x * 200 / 2 ^ 53" using d2 by simp
  finally have e2: "\<bar>toDouble (d * 100) - d * 100\<bar> \<le> x * 200 / 2 ^ 53" .
  have "toDouble (d * 100) - x * 100 = (toDouble (d * 100) - d * 100) + 100 * (d - x)"
    by simp
  then have "\<bar>toDouble (d * 100) - x * 100\<bar> \<le> \<bar>toDouble (d * 100) - d * 100\<bar> + \<bar>100 * (d - x)\<bar>"
    by (simp only: abs_triangle_ineq)
  also have "\<bar>100 * (d - x)\<bar> = 100 * \<bar>d - x\<bar>" by (simp only: abs_mult abs_numeral)
  finally have "\<bar>toDouble (d * 100) - x * 100\<bar> \<le> \<bar>toDouble (d * 100) - d * 100\<bar> + 100 * \<bar>d - x\<bar>" .
  then have "\<bar>toDouble (d * 100) - x * 100\<bar> \<le> x * 200 / 2 ^ 53 + 100 * (x / 2 ^ 53)"
    using e1 e2 by linarith
  also have "\<dots> = x * 300 / 2 ^ 53" by simp
  finally show ?thesis by (simp add: d_def)
qed

lemma percentage_bounds:
  assumes "0 \<le> x" "x \<le> 1"
  shows "0 \<le> toDouble (toDouble x * 100) \<and> toDouble (toDouble x * 100) \<le> 100"
proof -
  have d0: "0 \<le> toDouble x" using assms by (simp add: toDouble_nonneg)
  have "toDouble x \<le> of_int 1" using assms by (intro toDouble_le_int) simp_all
  then have d1: "toDouble x * 100 \<le> of_int 100" by simp
  have "toDouble (toDouble x * 100) \<le> of_int 100"
    using d0 d1 by (intro toDouble_le_int) simp_all
  moreover have "0 \<le> toDouble (toDouble x * 100)" using d0 by (simp add: toDouble_nonneg)
  ultimately show ?thesis by simp
qed

section \<open>The statistics\<close>

text \<open>
  Claim C7, refuted as it is worded: the two percentages need not add up to 100. For the
  three lines \<open>x\<close>, \<open>x\<close>, \<open>nums\<close> under the label \<open>python\<close>, one line of three is AI, and
  \<open>aiPercentage\<close> is the double 33.33333333333333, \<open>humanPercentage\<close> the double
  66.66666666666666: their sum is 100 less \<open>1 / 2 ^ 46\<close>, and adding them as doubles gives
  99.99999999999999.
\<close>

theorem percentages_sum_below_100:
  "fst (analyzeCode fresh thirds_example (js ''python'')) =
     Inr \<lparr>totalLines = 3, aiLines = 1, humanLines = 2,
          aiPercentage = 2345624805922133 / 70368744177664,
          humanPercentage = 2345624805922133 / 35184372088832,
          overallConfidence = 37 / 40,
          lineAnalysis =
            [\<lparr>content = js ''x'', isAI = False, confidence = 19 / 20,
                reasons =
                  [''Uses short variable names common in human code'',
                   ''Short, concise line suggests human writing'']\<rparr>,
             \<lparr>content = js ''x'', isAI = False, confidence = 19 / 20,
                reasons = [''Short, concise line suggests human writing'']\<rparr>,
             \<lparr>content = js ''nums'', isAI = True, confidence = 7 / 8,
                reasons =
                  [''Uses educational variable names typical of AI tutorials'',
                   ''Short, concise line suggests human writing'']\<rparr>],
          aiBlocks =
            [\<lparr>startLine = 1, endLine = 2, confidenceLevel = StronglyHuman,
                blockConfidence = 19 / 20,
                blockReasons =
                  [''Uses short variable names common in human code'',
                   ''Short, concise line suggests human writing'']\<rparr>]\<rparr>
   \<and> (2345624805922133 / 70368744177664 + 2345624805922133 / 35184372088832 :: real)
        = 100 - 1 / 2 ^ 46"
  by (simp add: rx_defs run_defs)

text \<open>
  Claim C7, amended: in a result of \<open>analyzeCode\<close>, \<open>aiPercentage\<close> is between 0 and 100;
  when \<open>totalLines > 0\<close> the two percentages add up to 100 up to the rounding of the
  divisions and multiplications that compute them, their sum being within \<open>1 / 10 ^ 13\<close> of
  100, and they are both 0 otherwise; \<open>totalLines\<close>, \<open>aiLines\<close> and \<open>humanLines\<close> count the
  non-blank lines, those that are AI and those that are not; \<open>overallConfidence\<close> is the
  sum of the confidences of the non-blank lines, added from the left starting at 0,
  divided by their number, and 0.5 when there is none.
\<close>

theorem analyzeCode_statistics:
  assumes "fst (analyzeCode \<sigma> code language) = Inr r"
  shows "0 \<le> aiPercentage r \<and> aiPercentage r \<le> 100
    \<and> (if totalLines r > 0 then \<bar>aiPercentage r + humanPercentage r - 100\<bar> \<le> 1 / 10 ^ 13
        else aiPercentage r = 0 \<and> humanPercentage r = 0)
    \<and> map content (lineAnalysis r) = split_newline code
    \<and> totalLines r = length (filter (\<lambda>l. trim (content l) \<noteq> []) (lineAnalysis r))
    \<and> aiLines r = length (filter (\<lambda>l. trim (content l) \<noteq> [] \<and> isAI l) (lineAnalysis r))
    \<and> humanLines r = length (filter (\<lambda>l. trim (content l) \<noteq> [] \<and> \<not> isAI l) (lineAnalysis r))
    \<and> overallConfidence r =
        (if totalLines r > 0
         then foldl (\<lambda>sum line. sum + confidence line) 0
                (filter (\<lambda>l. trim (content l) \<noteq> []) (lineAnalysis r))
                / real (totalLines r)
         else 0.5)"
proof -
  from analyzeCode_Inr [OF assms] obtain la0 \<sigma>' where
    r: "r = summarize (applyContextualAnalysis la0)" by blast
  define la where "la = applyContextualAnalysis la0"
  define ne where "ne = filter (\<lambda>l. trim (content l) \<noteq> []) la"
  define x where "x = real (aiLines r) / real (length ne)"
  define y where "y = real (humanLines r) / real (length ne)"
  have la: "lineAnalysis r = la" by (simp add: r la_def)
  have tot: "totalLines r = length ne"
    by (simp add: r la_def ne_def summarize_def Let_def blank_def)
  have ai: "aiLines r = length (filter isAI ne)"
    by (simp add: r la_def ne_def summarize_def Let_def blank_def)
  have hu: "humanLines r = length ne - length (filter isAI ne)"
    by (simp add: r la_def ne_def summarize_def Let_def blank_def)
  have le: "length (filter isAI ne) \<le> length ne" by simp
  have hu': "humanLines r = length (filter (\<lambda>l. \<not> isAI l) ne)"
    using sum_length_filter_compl [of isAI ne] hu by simp
  have aip: "aiPercentage r = (if length ne > 0 then toDouble (toDouble x * 100) else 0)"
    unfolding x_def ai by (simp add: r la_def ne_def summarize_def Let_def blank_def)
  have hup: "humanPercentage r = (if length ne > 0 then toDouble (toDouble y * 100) else 0)"
    unfolding y_def hu by (simp add: r la_def ne_def summarize_def Let_def blank_def)
  have oc: "overallConfidence r =
      (if length ne > 0 then foldl (\<lambda>sum line. sum + confidence line) 0 ne / real (length ne)
       else 0.5)"
    by (simp add: r la_def ne_def summarize_def Let_def blank_def)
  have x0: "0 \<le> x" by (simp add: x_def)
  have y0: "0 \<le> y" by (simp add: y_def)
  have x1: "x \<le> 1" using le by (simp add: x_def ai divide_le_eq)
  have p12: "0 \<le> aiPercentage r \<and> aiPercentage r \<le> 100"
    using percentage_bounds [OF x0 x1] by (simp add: aip)
  have p3: "\<bar>aiPercentage r + humanPercentage r - 100\<bar> \<le> 1 / 10 ^ 13" if pos: "length ne > 0"
  proof -
    have "real (aiLines r) + real (humanLines r) = real (length ne)"
      using le by (simp add: ai hu of_nat_diff)
    then have "(real (aiLines r) + real (humanLines r)) / real (length ne) = 1"
      using pos by simp
    then have xy: "x + y = 1" by (simp add: x_def y_def add_divide_distrib)
    have "\<bar>toDouble (toDouble x * 100) + toDouble (toDouble y * 100) - 100\<bar>
        = \<bar>(toDouble (toDouble x * 100) - x * 100) + (toDouble (toDouble y * 100) - y * 100)\<bar>"
      using xy by (simp add: algebra_simps)
    also have "\<dots> \<le> x * 300 / 2 ^ 53 + y * 300 / 2 ^ 53"
      using percentage_error [OF x0] percentage_error [OF y0] by linarith
    also have "\<dots> = 300 / 2 ^ 53" using xy by (simp add: add_divide_distrib [symmetric] distrib_right [symmetric])
    also have "\<dots> \<le> 1 / 10 ^ 13" by simp
    finally show ?thesis using pos by (simp add: aip hup)
  qed
  have p4: "\<not> length ne > 0 \<Longrightarrow> aiPercentage r = 0 \<and> humanPercentage r = 0"
    by (simp add: aip hup)
  have c: "map content (lineAnalysis r) = split_newline code"
    using analyzeCode_lines [OF assms] by simp
  show ?thesis
    using p12 p3 p4 c by (simp add: la tot ai hu' oc ne_def)
qed

theorem analyzeCode_statistics_witness:
  "(case fst (analyzeCode fresh blank_example (js ''python'')) of
      Inl e \<Rightarrow> False
    | Inr r \<Rightarrow>
        0 \<le> aiPercentage r \<and> aiPercentage r \<le> 100 \<and>
        \<bar>aiPercentage r + humanPercentage r - 100\<bar> \<le> 1 / 10 ^ 13 \<and>
        totalLines r = 2 \<and> aiLines r = 1 \<and> humanLines r = 1 \<and>
        totalLines r = length (filter (\<lambda>l. trim (content l) \<noteq> []) (lineAnalysis r)) \<and>
        overallConfidence r =
          foldl (\<lambda>sum line. sum + confidence line) 0
            (filter (\<lambda>l. trim (content l) \<noteq> []) (lineAnalysis r)) / 2)"
proof -
  have "\<exists>r. fst (analyzeCode fresh blank_example (js ''python'')) = Inr r \<and>
          totalLines r = 2 \<and> aiLines r = 1 \<and> humanLines r = 1"
    by (simp add: rx_defs run_defs)
  then obtain r where r: "fst (analyzeCode fresh blank_example (js ''python'')) = Inr r"
    and t: "totalLines r = 2" "aiLines r = 1" "humanLines r = 1"
    by (elim exE conjE)
  from analyzeCode_statistics [OF r] t show ?thesis by (simp add: r)
qed

section \<open>The loop of the block aggregator\<close>

lemma curOK_D:
  assumes "curOK la n blocks c"
  shows "1 \<le> cstart c" and "cstart c \<le> cend c" and "cend c \<le> n"
    and "\<not> blank (la ! (cstart c - 1))" and "\<not> blank (la ! (cend c - 1))"
    and "\<And>j. cstart c - 1 \<le> j \<Longrightarrow> j < n \<Longrightarrow> \<not> blank (la ! j) \<Longrightarrow> isAI (la ! j) = cisAI c"
    and "\<And>j. cend c \<le> j \<Longrightarrow> j < n \<Longrightarrow> blank (la ! j)"
    and "2 \<le> length (confidences c) \<Longrightarrow> cstart c < cend c"
    and "leftMax la (cstart c - 1) (cisAI c)"
    and "\<And>b. b \<in> set blocks \<Longrightarrow> endLine b < cstart c"
  using assms unfolding curOK_def by blast+

lemma curOK_I:
  assumes "1 \<le> cstart c" and "cstart c \<le> cend c" and "cend c \<le> n"
    and "\<not> blank (la ! (cstart c - 1))" and "\<not> blank (la ! (cend c - 1))"
    and "\<And>j. cstart c - 1 \<le> j \<Longrightarrow> j < n \<Longrightarrow> \<not> blank (la ! j) \<Longrightarrow> isAI (la ! j) = cisAI c"
    and "\<And>j. cend c \<le> j \<Longrightarrow> j < n \<Longrightarrow> blank (la ! j)"
    and "2 \<le> length (confidences c) \<Longrightarrow> cstart c < cend c"
    and "leftMax la (cstart c - 1) (cisAI c)"
    and "\<And>b. b \<in> set blocks \<Longrightarrow> endLine b < cstart c"
  shows "curOK la n blocks c"
  unfolding curOK_def using assms by blast

lemma pushBlock_None [simp]: "pushBlock None blocks = blocks"
  by (simp add: pushBlock_def)

lemma pushBlock_Some:
  "pushBlock (Some c) blocks =
     (if 2 \<le> length (confidences c) then
        blocks @ [\<lparr>startLine = cstart c, endLine = cend c,
           confidenceLevel = getConfidenceLevel
             (foldl (+) 0 (confidences c) / real (length (confidences c))) (cisAI c),
           blockConfidence = foldl (+) 0 (confidences c) / real (length (confidences c)),
           blockReasons = creasons c\<rparr>]
      else blocks)"
  by (simp add: pushBlock_def Let_def)

lemma curOK_goodBlock:
  assumes c: "curOK la n blocks c" and n: "n \<le> length la" and two: "2 \<le> length (confidences c)"
    and b: "startLine b = cstart c" "endLine b = cend c"
      "confidenceLevel b = getConfidenceLevel (blockConfidence b) (cisAI c)"
  shows "goodBlock la b"
proof -
  note d = curOK_D [OF c]
  have cls: "blockIsAI la b = cisAI c"
    unfolding blockIsAI_def b using d(6) [of "cstart c - 1"] d(1,2,3,4) by simp
  have "\<forall>j. startLine b - 1 \<le> j \<longrightarrow> j < endLine b \<longrightarrow> \<not> blank (la ! j) \<longrightarrow> isAI (la ! j) = blockIsAI la b"
    unfolding cls b using d(6) d(3) by (meson less_le_trans)
  then show ?thesis
    unfolding goodBlock_def cls using d(1,3,4,5,9) d(8) [OF two] n b by simp
qed

lemma pushBlock_inv:
  assumes c: "curOK la n blocks c" and n: "n \<le> length la"
    and good: "\<forall>b\<in>set blocks. goodBlock la b" and ord: "ordered blocks"
  shows "(\<forall>b\<in>set (pushBlock (Some c) blocks). goodBlock la b \<and> endLine b \<le> n)
         \<and> ordered (pushBlock (Some c) blocks)"
proof -
  note d = curOK_D [OF c]
  have old: "\<forall>b\<in>set blocks. endLine b \<le> n"
  proof
    fix b assume "b \<in> set blocks"
    from d(10) [OF this] d(2,3) show "endLine b \<le> n" by simp
  qed
  show ?thesis
  proof (cases "2 \<le> length (confidences c)")
    case False
    then have p: "pushBlock (Some c) blocks = blocks" by (simp only: pushBlock_Some if_False)
    from good old ord show ?thesis unfolding p by blast
  next
    case True
    define b where "b = \<lparr>startLine = cstart c, endLine = cend c,
           confidenceLevel = getConfidenceLevel
             (foldl (+) 0 (confidences c) / real (length (confidences c))) (cisAI c),
           blockConfidence = foldl (+) 0 (confidences c) / real (length (confidences c)),
           blockReasons = creasons c\<rparr>"
    have p: "pushBlock (Some c) blocks = blocks @ [b]"
      unfolding b_def using True by (simp only: pushBlock_Some if_True)
    have bs: "startLine b = cstart c" "endLine b = cend c"
      "confidenceLevel b = getConfidenceLevel (blockConfidence b) (cisAI c)"
      by (simp_all add: b_def)
    have g: "goodBlock la b" using c n True bs by (rule curOK_goodBlock)
    have e: "endLine b \<le> n" using d(3) bs by simp
    have "\<forall>x\<in>set blocks. endLine x < startLine b" using d(10) bs by simp
    then have o: "ordered (blocks @ [b])"
      using ord by (simp add: ordered_def sorted_wrt_append)
    from g e old good have "\<forall>x\<in>set (blocks @ [b]). goodBlock la x \<and> endLine x \<le> n" by simp
    with o show ?thesis unfolding p by blast
  qed
qed

lemma curOK_blank:
  assumes c: "curOK la n blocks c" and bl: "blank (la ! n)"
  shows "curOK la (Suc n) blocks c"
proof (rule curOK_I)
  note d = curOK_D [OF c]
  show "1 \<le> cstart c" "cstart c \<le> cend c" "\<not> blank (la ! (cstart c - 1))"
    "\<not> blank (la ! (cend c - 1))" "leftMax la (cstart c - 1) (cisAI c)" by (rule d)+
  show "cend c \<le> Suc n" using d(3) by simp
  show "2 \<le> length (confidences c) \<Longrightarrow> cstart c < cend c" by (rule d(8))
  show "\<And>b. b \<in> set blocks \<Longrightarrow> endLine b < cstart c" by (rule d(10))
  show "isAI (la ! j) = cisAI c" if "cstart c - 1 \<le> j" "j < Suc n" "\<not> blank (la ! j)" for j
  proof (cases "j = n")
    case True with bl that(3) show ?thesis by simp
  next
    case False with that have "j < n" by simp
    with that show ?thesis by (intro d(6))
  qed
  show "blank (la ! j)" if "cend c \<le> j" "j < Suc n" for j
  proof (cases "j = n")
    case True with bl show ?thesis by simp
  next
    case False with that have "j < n" by simp
    with that show ?thesis by (intro d(7))
  qed
qed

lemma curOK_extend:
  assumes c: "curOK la n blocks c" and nb: "\<not> blank (la ! n)" and same: "cisAI c = isAI (la ! n)"
    and c': "cstart c' = cstart c" "cend c' = n + 1" "cisAI c' = cisAI c"
  shows "curOK la (Suc n) blocks c'"
proof (rule curOK_I)
  note d = curOK_D [OF c]
  show "1 \<le> cstart c'" using d(1) c' by simp
  show "cstart c' \<le> cend c'" using d(2,3) c' by simp
  show "cend c' \<le> Suc n" using c' by simp
  show "\<not> blank (la ! (cstart c' - 1))" using d(4) c' by simp
  show "\<not> blank (la ! (cend c' - 1))" using nb c' by simp
  show "2 \<le> length (confidences c') \<Longrightarrow> cstart c' < cend c'" using d(2,3) c' by simp
  show "leftMax la (cstart c' - 1) (cisAI c')" using d(9) c' by simp
  show "\<And>b. b \<in> set blocks \<Longrightarrow> endLine b < cstart c'" using d(10) c' by simp
  show "isAI (la ! j) = cisAI c'" if "cstart c' - 1 \<le> j" "j < Suc n" "\<not> blank (la ! j)" for j
  proof (cases "j = n")
    case True with same c' show ?thesis by simp
  next
    case False with that have "j < n" by simp
    with that c' show ?thesis by (simp add: d(6))
  qed
  show "blank (la ! j)" if "cend c' \<le> j" "j < Suc n" for j
    using that c' by simp
qed

lemma curOK_fresh:
  assumes nb: "\<not> blank (la ! n)"
    and lm: "leftMax la n (isAI (la ! n))"
    and prev: "\<And>b. b \<in> set blocks \<Longrightarrow> endLine b \<le> n"
    and c': "cstart c' = n + 1" "cend c' = n + 1" "cisAI c' = isAI (la ! n)" "length (confidences c') = 1"
  shows "curOK la (Suc n) blocks c'"
proof (rule curOK_I)
  show "1 \<le> cstart c'" "cstart c' \<le> cend c'" "cend c' \<le> Suc n" using c' by simp_all
  show "\<not> blank (la ! (cstart c' - 1))" "\<not> blank (la ! (cend c' - 1))" using nb c' by simp_all
  show "2 \<le> length (confidences c') \<Longrightarrow> cstart c' < cend c'" using c' by simp
  show "leftMax la (cstart c' - 1) (cisAI c')" using lm c' by simp
  show "endLine b < cstart c'" if "b \<in> set blocks" for b using prev [OF that] c' by simp
  show "isAI (la ! j) = cisAI c'" if "cstart c' - 1 \<le> j" "j < Suc n" "\<not> blank (la ! j)" for j
  proof -
    from that c' have "j = n" by simp
    with c' show ?thesis by simp
  qed
  show "blank (la ! j)" if "cend c' \<le> j" "j < Suc n" for j
    using that c' by simp
qed

lemma leftMax_after:
  assumes c: "curOK la n blocks c" and diff: "cisAI c \<noteq> isAI (la ! n)"
  shows "leftMax la n (isAI (la ! n))"
  unfolding leftMax_def
proof (intro allI impI)
  note d = curOK_D [OF c]
  fix j assume j: "j < n" and nj: "\<not> blank (la ! j)"
  have "j < cend c"
  proof (rule ccontr)
    assume "\<not> j < cend c"
    then have "cend c \<le> j" by simp
    from d(7) [OF this j] nj show False by simp
  qed
  moreover have "isAI (la ! (cend c - 1)) = cisAI c"
    using d(1,2,3,5) by (intro d(6)) simp_all
  ultimately show "\<exists>k. j \<le> k \<and> k < n \<and> \<not> blank (la ! k) \<and> isAI (la ! k) \<noteq> isAI (la ! n)"
    using d(1,2,3,5) diff by (intro exI [of _ "cend c - 1"]) auto
qed

lemma blockStep_inv:
  assumes inv: "blocksInv la n st" and n: "n < length la"
  shows "blocksInv la (Suc n) (blockStep la st n)"
proof -
  obtain blocks cb where st: "st = (blocks, cb)" by (cases st)
  from inv have good: "\<forall>b\<in>set blocks. goodBlock la b" and ord: "ordered blocks"
    by (simp_all add: blocksInv_def st)
  let ?new = "\<lparr>cstart = n + 1, cend = n + 1, cisAI = isAI (la ! n),
                  confidences = [confidence (la ! n)],
                  creasons = fold setAdd (reasons (la ! n)) []\<rparr>"
  show ?thesis
  proof (cases "blank (la ! n)")
    case True
    then have s: "blockStep la st n = (blocks, cb)" by (simp add: blockStep_def st Let_def)
    show ?thesis
    proof (cases cb)
      case None
      with inv have "blocks = []" "\<forall>j<n. blank (la ! j)" by (simp_all add: blocksInv_def st)
      with True have "blocks = []" "\<forall>j<Suc n. blank (la ! j)" by (simp_all add: less_Suc_eq)
      then show ?thesis by (simp add: s None blocksInv_def ordered_def)
    next
      case (Some c)
      with inv have "curOK la n blocks c" by (simp add: blocksInv_def st)
      from curOK_blank [OF this True] good ord show ?thesis by (simp add: s Some blocksInv_def)
    qed
  next
    case nb: False
    show ?thesis
    proof (cases cb)
      case None
      then have s: "blockStep la st n = (blocks, Some ?new)"
        using nb by (simp add: blockStep_def st Let_def)
      from inv None have b: "blocks = []" "\<forall>j<n. blank (la ! j)"
        by (simp_all add: blocksInv_def st)
      have "leftMax la n (isAI (la ! n))" using b(2) by (simp add: leftMax_def)
      then have "curOK la (Suc n) blocks ?new"
        using nb b(1) by (intro curOK_fresh) simp_all
      then show ?thesis using b by (simp add: s blocksInv_def ordered_def)
    next
      case (Some c)
      from inv have c: "curOK la n blocks c" by (simp add: blocksInv_def st Some)
      show ?thesis
      proof (cases "cisAI c = isAI (la ! n)")
        case True
        let ?c' = "c\<lparr>cend := n + 1, confidences := confidences c @ [confidence (la ! n)],
               creasons := fold setAdd (reasons (la ! n)) (creasons c)\<rparr>"
        from True have s: "blockStep la st n = (blocks, Some ?c')"
          using nb by (simp add: blockStep_def st Some Let_def)
        have "curOK la (Suc n) blocks ?c'"
          using c nb True by (rule curOK_extend) simp_all
        then show ?thesis using good ord by (simp add: s blocksInv_def)
      next
        case False
        from False have s: "blockStep la st n = (pushBlock (Some c) blocks, Some ?new)"
          using nb by (simp add: blockStep_def st Some Let_def)
        from pushBlock_inv [OF c _ good ord] n
        have pb: "\<forall>b\<in>set (pushBlock (Some c) blocks). goodBlock la b \<and> endLine b \<le> n"
          and po: "ordered (pushBlock (Some c) blocks)" by simp_all
        have lm: "leftMax la n (isAI (la ! n))" using c False by (rule leftMax_after)
        have "curOK la (Suc n) (pushBlock (Some c) blocks) ?new"
          using nb lm pb by (intro curOK_fresh) simp_all
        then show ?thesis using pb po by (simp add: s blocksInv_def)
      qed
    qed
  qed
qed

lemma blocks_loop_inv:
  "n \<le> length la \<Longrightarrow> blocksInv la n (foldl (blockStep la) ([], None) [0..<n])"
proof (induction n)
  case 0
  show ?case by (simp add: blocksInv_def ordered_def)
next
  case (Suc n)
  then show ?case by (simp add: blockStep_inv)
qed

lemma detectAIBlocks_inv:
  "(\<forall>b\<in>set (detectAIBlocks la). goodBlock la b) \<and> ordered (detectAIBlocks la)"
proof -
  obtain blocks cb where f: "foldl (blockStep la) ([], None) [0..<length la] = (blocks, cb)"
    by (cases "foldl (blockStep la) ([], None) [0..<length la]")
  from blocks_loop_inv [of "length la" la] f have inv: "blocksInv la (length la) (blocks, cb)" by simp
  show ?thesis
  proof (cases cb)
    case None
    with inv f show ?thesis by (simp add: detectAIBlocks_def blocksInv_def ordered_def)
  next
    case (Some c)
    with inv have "curOK la (length la) blocks c" "\<forall>b\<in>set blocks. goodBlock la b" "ordered blocks"
      by (simp_all add: blocksInv_def)
    from pushBlock_inv [OF this(1) _ this(2,3)] f Some show ?thesis
      by (simp add: detectAIBlocks_def)
  qed
qed

lemma two_nonblank:
  assumes "i < j" and "j < length xs" and "P (xs ! i)" and "P (xs ! j)"
  shows "2 \<le> length (filter P xs)"
proof -
  have xs: "xs = take j xs @ drop j xs" by simp
  have "xs ! i \<in> set (take j xs)" using assms(1,2) by (auto simp: in_set_conv_nth intro!: exI [of _ i])
  then have a: "filter P (take j xs) \<noteq> []" using assms(3) by (auto simp: filter_empty_conv)
  have "xs ! j \<in> set (drop j xs)" using assms(2) by (auto simp: in_set_conv_nth intro!: exI [of _ 0])
  then have b: "filter P (drop j xs) \<noteq> []" using assms(4) by (auto simp: filter_empty_conv)
  have "length (filter P xs) = length (filter P (take j xs)) + length (filter P (drop j xs))"
    by (subst xs) (simp only: filter_append length_append)
  moreover have "1 \<le> length (filter P (take j xs))" "1 \<le> length (filter P (drop j xs))"
    using a b by (simp_all add: Suc_le_eq)
  ultimately show ?thesis by simp
qed

lemma goodBlock_members:
  assumes "goodBlock la b"
  shows "2 \<le> length (filter (\<lambda>l. \<not> blank l) (members la b))"
    and "list_all (\<lambda>l. blank l \<or> isAI l = blockIsAI la b) (members la b)"
proof -
  from assms have s: "1 \<le> startLine b" "startLine b < endLine b" "endLine b \<le> length la"
    and nb: "\<not> blank (la ! (startLine b - 1))" "\<not> blank (la ! (endLine b - 1))"
    and cls: "\<And>j. startLine b - 1 \<le> j \<Longrightarrow> j < endLine b \<Longrightarrow> \<not> blank (la ! j) \<Longrightarrow> isAI (la ! j) = blockIsAI la b"
    unfolding goodBlock_def by blast+
  let ?m = "members la b"
  have len: "length ?m = endLine b + 1 - startLine b" using s by (simp add: members_def)
  have nth: "?m ! k = la ! (startLine b - 1 + k)" if "k < length ?m" for k
    using that s by (simp add: members_def)
  have "?m ! 0 = la ! (startLine b - 1)" using nth [of 0] len s by simp
  moreover have "?m ! (endLine b - startLine b) = la ! (endLine b - 1)"
    using nth [of "endLine b - startLine b"] len s by simp
  ultimately show "2 \<le> length (filter (\<lambda>l. \<not> blank l) ?m)"
    using nb s len by (intro two_nonblank [of 0 "endLine b - startLine b"]) simp_all
  show "list_all (\<lambda>l. blank l \<or> isAI l = blockIsAI la b) ?m"
    unfolding list_all_length
  proof (intro allI impI)
    fix k assume k: "k < length ?m"
    then have "startLine b - 1 + k < endLine b" using len s by simp
    with cls [of "startLine b - 1 + k"] nth [OF k]
    show "blank (?m ! k) \<or> isAI (?m ! k) = blockIsAI la b" by auto
  qed
qed

lemma list_all_intro: "(\<And>x. x \<in> set xs \<Longrightarrow> P x) \<Longrightarrow> list_all P xs"
  by (simp add: list_all_iff)

lemma ordered_consecutive:
  "ordered bs \<Longrightarrow> Suc k < length bs \<Longrightarrow> endLine (bs ! k) < startLine (bs ! Suc k)"
  by (simp add: ordered_def sorted_wrt_iff_nth_less)

text \<open>
  The text \<open>runs_example\<close>: two AI lines, the human line \<open>foo\<close> (a creative-human signal,
  so the refiner leaves it), two AI lines.
\<close>

lemma runs_example_result:
  "fst (analyzeCode fresh runs_example (js ''python'')) =
     Inr \<lparr>totalLines = 5, aiLines = 4, humanLines = 1, aiPercentage = 80, humanPercentage = 20,
          overallConfidence = 9 / 10, lineAnalysis = runs_example_lines,
          aiBlocks = runs_example_blocks\<rparr>"
  by (simp add: example_defs rx_defs run_defs)

lemma runs_example_detect: "detectAIBlocks runs_example_lines = runs_example_blocks"
  by (simp add: example_defs run_defs)

section \<open>The block invariant\<close>

text \<open>
  Claim C3, as stated (every emitted block has at least 2 non-blank lines, and no two
  adjacent emitted blocks share the same classification), fails in its second half: a
  run of one line is dropped, and the blocks on its two sides are then adjacent in the
  list with the same classification. For \<open>runs_example\<close>, \<open>analyzeCode\<close> emits the blocks
  of lines 1 to 2 and 4 to 5, both made of AI lines and both of tier Strongly AI.
\<close>

theorem adjacent_blocks_share_classification:
  "fst (analyzeCode fresh runs_example (js ''python'')) =
     Inr \<lparr>totalLines = 5, aiLines = 4, humanLines = 1, aiPercentage = 80, humanPercentage = 20,
          overallConfidence = 9 / 10, lineAnalysis = runs_example_lines,
          aiBlocks = runs_example_blocks\<rparr>
   \<and> detectAIBlocks runs_example_lines = runs_example_blocks
   \<and> map isAI runs_example_lines = [True, True, False, True, True]
   \<and> map startLine runs_example_blocks = [1, 4]
   \<and> map endLine runs_example_blocks = [2, 5]
   \<and> map confidenceLevel runs_example_blocks = [StronglyAI, StronglyAI]
   \<and> map (blockIsAI runs_example_lines) runs_example_blocks = [True, True]"
  using runs_example_result runs_example_detect
  by (simp add: example_defs blockIsAI_def)

text \<open>
  Claim C3, amended: every emitted block has at least 2 non-blank member lines, all its
  non-blank member lines have the classification of the block, which is the one its tier is
  computed from; and two consecutive emitted blocks share the same classification only
  when a non-blank line of the other classification (a dropped run) lies strictly
  between them.
\<close>

theorem detectAIBlocks_runs:
  "list_all (\<lambda>b. 2 \<le> length (filter (\<lambda>l. \<not> blank l) (members la b))
              \<and> list_all (\<lambda>l. blank l \<or> isAI l = blockIsAI la b) (members la b)
              \<and> confidenceLevel b = getConfidenceLevel (blockConfidence b) (blockIsAI la b))
     (detectAIBlocks la)
   \<and> (\<forall>k. Suc k < length (detectAIBlocks la) \<longrightarrow>
         blockIsAI la (detectAIBlocks la ! k) = blockIsAI la (detectAIBlocks la ! Suc k) \<longrightarrow>
         (\<exists>j. endLine (detectAIBlocks la ! k) < j \<and> j < startLine (detectAIBlocks la ! Suc k)
              \<and> \<not> blank (la ! (j - 1)) \<and> isAI (la ! (j - 1)) \<noteq> blockIsAI la (detectAIBlocks la ! k)))"
proof (intro conjI allI impI)
  let ?bs = "detectAIBlocks la"
  from detectAIBlocks_inv [of la] have good: "\<And>b. b \<in> set ?bs \<Longrightarrow> goodBlock la b"
    and ord: "ordered ?bs" by blast+
  show "list_all (\<lambda>b. 2 \<le> length (filter (\<lambda>l. \<not> blank l) (members la b))
              \<and> list_all (\<lambda>l. blank l \<or> isAI l = blockIsAI la b) (members la b)
              \<and> confidenceLevel b = getConfidenceLevel (blockConfidence b) (blockIsAI la b)) ?bs"
  proof (rule list_all_intro)
    fix b assume "b \<in> set ?bs"
    then have g: "goodBlock la b" by (rule good)
    then have "confidenceLevel b = getConfidenceLevel (blockConfidence b) (blockIsAI la b)"
      unfolding goodBlock_def by blast
    with goodBlock_members [OF g]
    show "2 \<le> length (filter (\<lambda>l. \<not> blank l) (members la b))
              \<and> list_all (\<lambda>l. blank l \<or> isAI l = blockIsAI la b) (members la b)
              \<and> confidenceLevel b = getConfidenceLevel (blockConfidence b) (blockIsAI la b)"
      by blast
  qed
  fix k assume k: "Suc k < length ?bs"
    and same: "blockIsAI la (?bs ! k) = blockIsAI la (?bs ! Suc k)"
  let ?b1 = "?bs ! k" and ?b2 = "?bs ! Suc k"
  have g1: "goodBlock la ?b1" and g2: "goodBlock la ?b2" using k by (auto intro: good)
  from ordered_consecutive [OF ord k] have lt: "endLine ?b1 < startLine ?b2" .
  from g1 have s1: "1 \<le> startLine ?b1" "startLine ?b1 < endLine ?b1"
    and nb1: "\<not> blank (la ! (endLine ?b1 - 1))"
    and cls1: "\<And>j. startLine ?b1 - 1 \<le> j \<Longrightarrow> j < endLine ?b1 \<Longrightarrow> \<not> blank (la ! j) \<Longrightarrow> isAI (la ! j) = blockIsAI la ?b1"
    unfolding goodBlock_def by blast+
  from g2 have lm: "leftMax la (startLine ?b2 - 1) (blockIsAI la ?b2)"
    unfolding goodBlock_def by blast
  have "endLine ?b1 - 1 < startLine ?b2 - 1" using lt s1 by simp
  with lm nb1 obtain m where m: "endLine ?b1 - 1 \<le> m" "m < startLine ?b2 - 1"
    "\<not> blank (la ! m)" "isAI (la ! m) \<noteq> blockIsAI la ?b2"
    unfolding leftMax_def by blast
  have "isAI (la ! (endLine ?b1 - 1)) = blockIsAI la ?b1"
    using s1 nb1 by (intro cls1) simp_all
  with m(4) same have "m \<noteq> endLine ?b1 - 1" by auto
  with m(1) have "endLine ?b1 < Suc m" using s1 by simp
  moreover have "Suc m < startLine ?b2" using m(2) by simp
  ultimately show "\<exists>j. endLine ?b1 < j \<and> j < startLine ?b2
              \<and> \<not> blank (la ! (j - 1)) \<and> isAI (la ! (j - 1)) \<noteq> blockIsAI la ?b1"
    using m(3,4) same by (intro exI [of _ "Suc m"]) simp
qed

theorem detectAIBlocks_runs_witness:
  "Suc 0 < length (detectAIBlocks runs_example_lines)
   \<and> blockIsAI runs_example_lines (detectAIBlocks runs_example_lines ! 0)
       = blockIsAI runs_example_lines (detectAIBlocks runs_example_lines ! Suc 0)
   \<and> (\<exists>j. endLine (detectAIBlocks runs_example_lines ! 0) < j
          \<and> j < startLine (detectAIBlocks runs_example_lines ! Suc 0)
          \<and> \<not> blank (runs_example_lines ! (j - 1))
          \<and> isAI (runs_example_lines ! (j - 1))
               \<noteq> blockIsAI runs_example_lines (detectAIBlocks runs_example_lines ! 0))
   \<and> list_all (\<lambda>b. 2 \<le> length (filter (\<lambda>l. \<not> blank l) (members runs_example_lines b))
              \<and> list_all (\<lambda>l. blank l \<or> isAI l = blockIsAI runs_example_lines b) (members runs_example_lines b)
              \<and> confidenceLevel b = getConfidenceLevel (blockConfidence b) (blockIsAI runs_example_lines b))
        (detectAIBlocks runs_example_lines)"
proof -
  have k: "Suc 0 < length (detectAIBlocks runs_example_lines)"
    unfolding runs_example_detect by (simp add: runs_example_blocks_def)
  have same: "blockIsAI runs_example_lines (detectAIBlocks runs_example_lines ! 0)
       = blockIsAI runs_example_lines (detectAIBlocks runs_example_lines ! Suc 0)"
    unfolding runs_example_detect by (simp add: example_defs blockIsAI_def)
  from detectAIBlocks_runs [of runs_example_lines] k same show ?thesis by blast
qed

section \<open>Blocks are ordered and disjoint\<close>

text \<open>
  Claim C10: in a result of \<open>analyzeCode\<close>, every block has
  \<open>1 \<le> startLine \<le> endLine \<le>\<close> the number of raw lines of the text, both its endpoints
  are non-blank lines of the text, and each block starts after the end of the block before
  it in the list.
\<close>

theorem analyzeCode_blocks_ordered:
  assumes "fst (analyzeCode \<sigma> code language) = Inr r"
  shows "list_all (\<lambda>b. 1 \<le> startLine b \<and> startLine b \<le> endLine b
                \<and> endLine b \<le> length (split_newline code)
                \<and> trim (split_newline code ! (startLine b - 1)) \<noteq> []
                \<and> trim (split_newline code ! (endLine b - 1)) \<noteq> []) (aiBlocks r)
       \<and> (\<forall>k. Suc k < length (aiBlocks r) \<longrightarrow>
             endLine (aiBlocks r ! k) < startLine (aiBlocks r ! Suc k))"
proof (intro conjI allI impI)
  let ?la = "lineAnalysis r"
  from analyzeCode_Inr [OF assms] have bs: "aiBlocks r = detectAIBlocks ?la" by auto
  from analyzeCode_lines(1) [OF assms] have c: "map content ?la = split_newline code" .
  then have len: "length ?la = length (split_newline code)" by (metis length_map)
  have nth: "content (?la ! i) = split_newline code ! i" if "i < length ?la" for i
    using that c by (metis nth_map)
  from detectAIBlocks_inv [of ?la] have good: "\<And>b. b \<in> set (aiBlocks r) \<Longrightarrow> goodBlock ?la b"
    and ord: "ordered (aiBlocks r)" unfolding bs by blast+
  show "list_all (\<lambda>b. 1 \<le> startLine b \<and> startLine b \<le> endLine b
                \<and> endLine b \<le> length (split_newline code)
                \<and> trim (split_newline code ! (startLine b - 1)) \<noteq> []
                \<and> trim (split_newline code ! (endLine b - 1)) \<noteq> []) (aiBlocks r)"
  proof (rule list_all_intro)
    fix b assume "b \<in> set (aiBlocks r)"
    then have "goodBlock ?la b" by (rule good)
    then have s: "1 \<le> startLine b" "startLine b < endLine b" "endLine b \<le> length ?la"
      and nb: "\<not> blank (?la ! (startLine b - 1))" "\<not> blank (?la ! (endLine b - 1))"
      unfolding goodBlock_def by blast+
    have "content (?la ! (startLine b - 1)) = split_newline code ! (startLine b - 1)"
      "content (?la ! (endLine b - 1)) = split_newline code ! (endLine b - 1)"
      using s by (simp_all add: nth)
    with nb s len
    show "1 \<le> startLine b \<and> startLine b \<le> endLine b
                \<and> endLine b \<le> length (split_newline code)
                \<and> trim (split_newline code ! (startLine b - 1)) \<noteq> []
                \<and> trim (split_newline code ! (endLine b - 1)) \<noteq> []"
      by (simp add: blank_def)
  qed
  fix k assume "Suc k < length (aiBlocks r)"
  with ord show "endLine (aiBlocks r ! k) < startLine (aiBlocks r ! Suc k)"
    by (rule ordered_consecutive)
qed

theorem analyzeCode_blocks_ordered_witness:
  "(case fst (analyzeCode fresh runs_example (js ''python'')) of
      Inl e \<Rightarrow> False
    | Inr r \<Rightarrow>
        list_all (\<lambda>b. 1 \<le> startLine b \<and> startLine b \<le> endLine b
                \<and> endLine b \<le> length (split_newline runs_example)
                \<and> trim (split_newline runs_example ! (startLine b - 1)) \<noteq> []
                \<and> trim (split_newline runs_example ! (endLine b - 1)) \<noteq> []) (aiBlocks r)
        \<and> Suc 0 < length (aiBlocks r)
        \<and> endLine (aiBlocks r ! 0) < startLine (aiBlocks r ! Suc 0)
        \<and> map startLine (aiBlocks r) = [1, 4] \<and> map endLine (aiBlocks r) = [2, 5])"
proof -
  note r = runs_example_result
  have k: "Suc 0 < length runs_example_blocks" by (simp add: runs_example_blocks_def)
  from analyzeCode_blocks_ordered [OF r] k
  show ?thesis by (simp add: r runs_example_blocks_def)
qed

section \<open>The second pass of the refiner\<close>

lemma lookAhead_list_ex:
  "bound \<le> length la \<Longrightarrow>
   lookAhead la j bound = list_ex (\<lambda>l. \<not> blank l \<and> isAI l) (take (bound - j) (drop j la))"
proof (induction la j bound rule: lookAhead.induct)
  case (1 la j bound)
  show ?case
  proof (cases "j < bound")
    case False
    then show ?thesis by simp
  next
    case True
    with "1.prems" have j: "j < length la" by simp
    have "take (bound - j) (drop j la) = la ! j # take (bound - Suc j) (drop (Suc j) la)"
      using True j by (simp add: Cons_nth_drop_Suc [symmetric] Suc_diff_Suc [symmetric] del: lookAhead.simps)
    moreover have "lookAhead la j bound =
        (if \<not> blank (la ! j) \<and> isAI (la ! j) then True else lookAhead la (j + 1) bound)"
      using True by (subst lookAhead.simps) (simp del: lookAhead.simps)
    ultimately show ?thesis using "1.IH" [OF True _ "1.prems"] by (auto simp del: lookAhead.simps)
  qed
qed

lemma aiContinues_window:
  "aiContinues la i = list_ex (\<lambda>l. \<not> blank l \<and> isAI l) (take 3 (drop (Suc i) la))"
proof -
  have "take (min (i + 4) (length la) - (i + 1)) (drop (i + 1) la) = take 3 (drop (Suc i) la)"
    by (cases "i + 4 \<le> length la") (simp_all add: min_def)
  then show ?thesis
    by (simp add: aiContinues_def lookAhead_list_ex del: lookAhead.simps)
qed

text \<open>
  Claim C4, as stated (a non-creative HUMAN line reached with the counter at 2 or more is
  flipped when one of the next 3 non-blank lines is AI), fails: the look-ahead reads the
  3 raw lines that follow, blank ones included. In \<open>gap_example\<close> line 3 is HUMAN and not
  creative, the counter is 2 when the second pass reaches it, the only non-blank line
  after it (line 7, past three blank lines) is AI, and line 3 is not flipped.
\<close>

theorem extendStep_window_counts_blank_lines:
  "fst (analyzeCode fresh gap_example (js ''python'')) =
     Inr \<lparr>totalLines = 4, aiLines = 3, humanLines = 1, aiPercentage = 75, humanPercentage = 25,
          overallConfidence = 9 / 10, lineAnalysis = gap_example_lines,
          aiBlocks = [\<lparr>startLine = 1, endLine = 2, confidenceLevel = StronglyAI,
            blockConfidence = 71 / 80,
            blockReasons = [''Uses educational variable names typical of AI tutorials'',
                            ''Short, concise line suggests human writing'',
                            ''Contains step-by-step comments typical of AI explanations'']\<rparr>]\<rparr>
   \<and> foldl extendStep (foldl sandwichStep gap_example_lines [1..<length gap_example_lines - 1], 0) [0, 1]
       = (gap_example_lines, 2)
   \<and> \<not> blank (gap_example_lines ! 2) \<and> \<not> isAI (gap_example_lines ! 2)
   \<and> \<not> isCreativeHumanCode (content (gap_example_lines ! 2))
   \<and> list_ex isAI (take 3 (filter (Not \<circ> blank) (drop 3 gap_example_lines)))
   \<and> extendStep (gap_example_lines, 2) 2 = (gap_example_lines, 0)"
proof -
  have a: "fst (analyzeCode fresh gap_example (js ''python'')) =
     Inr \<lparr>totalLines = 4, aiLines = 3, humanLines = 1, aiPercentage = 75, humanPercentage = 25,
          overallConfidence = 9 / 10, lineAnalysis = gap_example_lines,
          aiBlocks = [\<lparr>startLine = 1, endLine = 2, confidenceLevel = StronglyAI,
            blockConfidence = 71 / 80,
            blockReasons = [''Uses educational variable names typical of AI tutorials'',
                            ''Short, concise line suggests human writing'',
                            ''Contains step-by-step comments typical of AI explanations'']\<rparr>]\<rparr>"
    by (simp add: example_defs rx_defs run_defs)
  have b: "foldl extendStep (foldl sandwichStep gap_example_lines [1..<length gap_example_lines - 1], 0) [0, 1]
       = (gap_example_lines, 2)"
    by (simp add: example_defs rx_defs run_defs)
  have c: "\<not> blank (gap_example_lines ! 2) \<and> \<not> isAI (gap_example_lines ! 2)
     \<and> \<not> isCreativeHumanCode (content (gap_example_lines ! 2))
     \<and> list_ex isAI (take 3 (filter (Not \<circ> blank) (drop 3 gap_example_lines)))"
    by (simp add: example_defs rx_defs run_defs)
  have d: "extendStep (gap_example_lines, 2) 2 = (gap_example_lines, 0)"
    by (simp add: example_defs rx_defs run_defs)
  from a b c d show ?thesis by (intro conjI) (elim conjE, assumption)+
qed

text \<open>
  Claim C4, amended: when the second pass reaches a non-blank HUMAN line, it flips the
  line to AI, with confidence \<open>max(current, 0.75)\<close> and the justification appended, exactly
  when the counter is at least 2, the line is not a creative-human signal and at least one
  of the up to 3 raw lines that follow it (blank lines count among the 3) is a non-blank AI
  line; the counter is reset to 0 whether or not the line was flipped.
\<close>

theorem extendStep_human_line:
  assumes "i < length la" and "\<not> blank (la ! i)" and "\<not> isAI (la ! i)"
  shows "extendStep (la, cnt) i =
     (if 2 \<le> cnt \<and> \<not> isCreativeHumanCode (content (la ! i))
         \<and> list_ex (\<lambda>l. \<not> blank l \<and> isAI l) (take 3 (drop (Suc i) la))
      then la[i := (la ! i)\<lparr>isAI := True, confidence := max (confidence (la ! i)) 0.75,
             reasons := reasons (la ! i) @ [''Part of extended AI-generated code block'']\<rparr>]
      else la, 0)"
  using assms by (simp add: extendStep_def Let_def aiContinues_window)

theorem extendStep_human_line_witness:
  "2 < length flip_example_lines \<and> \<not> blank (flip_example_lines ! 2)
   \<and> \<not> isAI (flip_example_lines ! 2)
   \<and> extendStep (flip_example_lines, 2) 2 =
       (flip_example_lines[2 := verdict_x\<lparr>isAI := True, confidence := 19 / 20,
          reasons := reasons verdict_x @ [''Part of extended AI-generated code block'']\<rparr>], 0)"
proof -
  have h: "2 < length flip_example_lines" "\<not> blank (flip_example_lines ! 2)"
    "\<not> isAI (flip_example_lines ! 2)"
    by (simp_all add: example_defs run_defs)
  have c: "2 \<le> (2::nat) \<and> \<not> isCreativeHumanCode (content (flip_example_lines ! 2))
     \<and> list_ex (\<lambda>l. \<not> blank l \<and> isAI l) (take 3 (drop (Suc 2) flip_example_lines))"
    by (simp add: example_defs rx_defs run_defs)
  have x: "flip_example_lines ! 2 = verdict_x" by (simp add: flip_example_lines_def)
  have m: "max (confidence verdict_x) 0.75 = 19 / 20" by (simp add: verdict_x_def)
  from extendStep_human_line [OF h, of 2] c
  have "extendStep (flip_example_lines, 2) 2 =
       (flip_example_lines[2 := verdict_x\<lparr>isAI := True, confidence := 19 / 20,
          reasons := reasons verdict_x @ [''Part of extended AI-generated code block'']\<rparr>], 0)"
    by (simp only: if_True x m simp_thms)
  with h show ?thesis by (intro conjI)
qed

end
